theory Spec2Isabelle
  imports
    Complex_Main
    "HOL-Library.Char_ord"
    "HOL-Library.List_Lexorder"
    "HOL-Library.Multiset"
    "HOL-Library.Product_Lexorder"
begin

section \<open>Data model (src/types/shift.ts)\<close>

text \<open>
  Every TypeScript interface is a record.  The field \<open>id\<close> of each interface and the
  fields \<open>type\<close> of \<open>Shift\<close> and \<open>ActivityLog\<close> carry a prefix, because \<open>id\<close> is a HOL
  constant and the records must not share field names.  \<open>SwapRequest.shift\<close> is declared
  as \<open>Shift\<close> but every reader tests it for presence (\<open>request.shift ? ... : ...\<close>), so it
  is an option here.  The optional \<open>password\<close> of a user is read by the login page
  (\<open>u.password\<close>) although the interface does not declare it; a stored user document may
  or may not carry the field.
\<close>

datatype ShiftType = Day | Afternoon | Night

record Shift =
  shift_id :: string
  employeeId :: string
  employeeName :: string
  date :: string
  shift_type :: ShiftType
  startTime :: string
  endTime :: string

datatype SwapStatus = Pending | Accepted | Declined

record SwapRequest =
  request_id :: string
  fromEmployeeId :: string
  fromEmployeeName :: string
  toEmployeeId :: string
  toEmployeeName :: string
  shiftId :: string
  shift :: "Shift option"
  status :: SwapStatus
  createdAt :: string

datatype Role = Employee | Manager

record User =
  user_id :: string
  email :: string
  name :: string
  role :: Role
  password :: "string option"

datatype LogType =
  shift_created | shift_updated | shift_deleted | swap_requested | swap_accepted | swap_declined

record ActivityLog =
  log_id :: string
  log_type :: LogType
  description :: string
  userId :: string
  userName :: string
  timestamp :: string

section \<open>Short identifier\<close>

text \<open>
  The expression \<^verbatim>\<open>name.split(' ')[0].toLowerCase()\<close> is repeated at every call site.
  \<open>split(' ')[0]\<close> is the prefix before the first space (the whole string when there is
  none, the empty string when the name starts with a space).  \<open>toLowerCase\<close> is the
  runtime's \<open>String.prototype.toLowerCase\<close>, which lowercases every cased letter; it is an
  argument of every function that calls it.  \<open>asciiToLowerCase\<close> is what it does to a string
  of ASCII characters, and is used for the examples only.
\<close>

definition lowerChar :: "char \<Rightarrow> char" where
  "lowerChar c =
     (case map_of (zip ''ABCDEFGHIJKLMNOPQRSTUVWXYZ'' ''abcdefghijklmnopqrstuvwxyz'') c of
        Some l \<Rightarrow> l
      | None \<Rightarrow> c)"

definition asciiToLowerCase :: "string \<Rightarrow> string" where
  "asciiToLowerCase s = map lowerChar s"

definition firstToken :: "string \<Rightarrow> string" where
  "firstToken s = takeWhile (\<lambda>c. c \<noteq> CHR '' '') s"

definition shortId :: "(string \<Rightarrow> string) \<Rightarrow> string \<Rightarrow> string" where
  "shortId toLowerCase n = toLowerCase (firstToken n)"

section \<open>The document store (src/lib/firebaseService.ts)\<close>

text \<open>
  A collection is the list of its documents, each read as \<^verbatim>\<open>{ id: doc.id, ...doc.data() }\<close>,
  so a document is the record with its document id in the id field.  The store keeps
  document ids unique within a collection.

  Every awaited store call either resolves or throws.  Whether the backing store throws
  (network, permission, missing index) is decided outside the program, so each service
  function takes that decision as its first argument: \<open>None\<close> when the store serves the
  call, \<open>Some e\<close> when it throws \<open>e\<close>.  The id that \<open>addDoc\<close> generates is an argument as
  well.
\<close>

datatype StoreError = FailedPrecondition | NotFound | Unavailable | PermissionDenied

record db =
  users :: "User list"
  shifts :: "Shift list"
  swapRequests :: "SwapRequest list"
  activityLogs :: "ActivityLog list"

text \<open>\<open>Partial<Shift>\<close> and \<open>Partial<SwapRequest>\<close>: the fields present in the update.\<close>

record ShiftPatch =
  p_employeeId :: "string option"
  p_employeeName :: "string option"
  p_date :: "string option"
  p_shift_type :: "ShiftType option"
  p_startTime :: "string option"
  p_endTime :: "string option"

definition noShiftPatch :: ShiftPatch where
  "noShiftPatch = \<lparr>p_employeeId = None, p_employeeName = None, p_date = None,
     p_shift_type = None, p_startTime = None, p_endTime = None\<rparr>"

definition orElse :: "'a option \<Rightarrow> 'a \<Rightarrow> 'a" where
  "orElse p v = (case p of Some w \<Rightarrow> w | None \<Rightarrow> v)"

definition applyShiftPatch :: "ShiftPatch \<Rightarrow> Shift \<Rightarrow> Shift" where
  "applyShiftPatch p s =
     s\<lparr>employeeId := orElse (p_employeeId p) (employeeId s),
       employeeName := orElse (p_employeeName p) (employeeName s),
       date := orElse (p_date p) (date s),
       shift_type := orElse (p_shift_type p) (shift_type s),
       startTime := orElse (p_startTime p) (startTime s),
       endTime := orElse (p_endTime p) (endTime s)\<rparr>"

record SwapRequestPatch =
  p_fromEmployeeId :: "string option"
  p_fromEmployeeName :: "string option"
  p_toEmployeeId :: "string option"
  p_toEmployeeName :: "string option"
  p_shiftId :: "string option"
  p_shift :: "Shift option"
  p_status :: "SwapStatus option"
  p_createdAt :: "string option"

definition noSwapRequestPatch :: SwapRequestPatch where
  "noSwapRequestPatch = \<lparr>p_fromEmployeeId = None, p_fromEmployeeName = None,
     p_toEmployeeId = None, p_toEmployeeName = None, p_shiftId = None, p_shift = None,
     p_status = None, p_createdAt = None\<rparr>"

definition applySwapRequestPatch :: "SwapRequestPatch \<Rightarrow> SwapRequest \<Rightarrow> SwapRequest" where
  "applySwapRequestPatch p r =
     r\<lparr>fromEmployeeId := orElse (p_fromEmployeeId p) (fromEmployeeId r),
       fromEmployeeName := orElse (p_fromEmployeeName p) (fromEmployeeName r),
       toEmployeeId := orElse (p_toEmployeeId p) (toEmployeeId r),
       toEmployeeName := orElse (p_toEmployeeName p) (toEmployeeName r),
       shiftId := orElse (p_shiftId p) (shiftId r),
       shift := (case p_shift p of Some s \<Rightarrow> Some s | None \<Rightarrow> shift r),
       status := orElse (p_status p) (status r),
       createdAt := orElse (p_createdAt p) (createdAt r)\<rparr>"

text \<open>
  \<open>updateDoc\<close> merges the given fields into the document with that id and throws
  not-found when there is no such document.
\<close>

definition updateDoc ::
  "StoreError option \<Rightarrow> ('d \<Rightarrow> string) \<Rightarrow> string \<Rightarrow> ('d \<Rightarrow> 'd) \<Rightarrow> 'd list \<Rightarrow> StoreError + 'd list" where
  "updateDoc fault ident docId f docs =
     (case fault of
        Some e \<Rightarrow> Inl e
      | None \<Rightarrow>
          if docId \<in> set (map ident docs)
          then Inr (map (\<lambda>x. if ident x = docId then f x else x) docs)
          else Inl NotFound)"

definition addShift :: "StoreError option \<Rightarrow> string \<Rightarrow> Shift \<Rightarrow> db \<Rightarrow> StoreError + (string \<times> db)" where
  "addShift fault newId s d =
     (case fault of
        Some e \<Rightarrow> Inl e
      | None \<Rightarrow> Inr (newId, d\<lparr>shifts := shifts d @ [s\<lparr>shift_id := newId\<rparr>]\<rparr>))"

definition updateShift :: "StoreError option \<Rightarrow> string \<Rightarrow> ShiftPatch \<Rightarrow> db \<Rightarrow> StoreError + db" where
  "updateShift fault sid p d =
     (case updateDoc fault shift_id sid (applyShiftPatch p) (shifts d) of
        Inl e \<Rightarrow> Inl e
      | Inr docs \<Rightarrow> Inr (d\<lparr>shifts := docs\<rparr>))"

definition addSwapRequest ::
  "StoreError option \<Rightarrow> string \<Rightarrow> SwapRequest \<Rightarrow> db \<Rightarrow> StoreError + (string \<times> db)" where
  "addSwapRequest fault newId r d =
     (case fault of
        Some e \<Rightarrow> Inl e
      | None \<Rightarrow> Inr (newId, d\<lparr>swapRequests := swapRequests d @ [r\<lparr>request_id := newId\<rparr>]\<rparr>))"

definition updateSwapRequest ::
  "StoreError option \<Rightarrow> string \<Rightarrow> SwapRequestPatch \<Rightarrow> db \<Rightarrow> StoreError + db" where
  "updateSwapRequest fault rid p d =
     (case updateDoc fault request_id rid (applySwapRequestPatch p) (swapRequests d) of
        Inl e \<Rightarrow> Inl e
      | Inr docs \<Rightarrow> Inr (d\<lparr>swapRequests := docs\<rparr>))"

definition addActivityLog ::
  "StoreError option \<Rightarrow> string \<Rightarrow> ActivityLog \<Rightarrow> db \<Rightarrow> StoreError + (string \<times> db)" where
  "addActivityLog fault newId l d =
     (case fault of
        Some e \<Rightarrow> Inl e
      | None \<Rightarrow> Inr (newId, d\<lparr>activityLogs := activityLogs d @ [l\<lparr>log_id := newId\<rparr>]\<rparr>))"

section \<open>Responding to a swap request (src/pages/EmployeeDashboard.tsx)\<close>

text \<open>
  \<open>handleSwapResponse\<close> reads the request from the component's list \<open>swapRequests\<close> (the last
  batch the subscription delivered), not from the store.  It returns without any effect
  when the id is not in that list.  Otherwise it performs up to three writes in sequence;
  the first one that throws is caught, the error toast is shown, and the writes already
  made stay.  The result is the toast shown (none on the early return) and the store.
\<close>

record Toast =
  title :: string
  toast_description :: string
  destructive :: bool

record RespondEnv =
  updateShiftFault :: "StoreError option"
  updateSwapRequestFault :: "StoreError option"
  addActivityLogFault :: "StoreError option"
  newLogId :: string
  now :: string

definition respondErrorToast :: Toast where
  "respondErrorToast =
     \<lparr>title = ''Error'', toast_description = ''Failed to respond to swap request.'',
      destructive = True\<rparr>"

definition respondToast :: "bool \<Rightarrow> Toast" where
  "respondToast accept =
     \<lparr>title = (if accept then ''Swap Accepted'' else ''Swap Declined''),
      toast_description =
        (if accept then ''Shifts have been swapped successfully!''
         else ''The swap request has been declined.''),
      destructive = False\<rparr>"

definition respondLog :: "RespondEnv \<Rightarrow> User \<Rightarrow> SwapRequest \<Rightarrow> bool \<Rightarrow> ActivityLog" where
  "respondLog env user request accept =
     \<lparr>log_id = [],
      log_type = (if accept then swap_accepted else swap_declined),
      description =
        name user @ '' '' @ (if accept then ''accepted'' else ''declined'')
          @ '' swap request from '' @ fromEmployeeName request,
      userId = user_id user,
      userName = name user,
      timestamp = now env\<rparr>"

definition handleSwapResponse ::
  "RespondEnv \<Rightarrow> User \<Rightarrow> SwapRequest list \<Rightarrow> string \<Rightarrow> bool \<Rightarrow> db \<Rightarrow> Toast option \<times> db" where
  "handleSwapResponse env user swapReqs requestId accept d =
     (case find (\<lambda>r. request_id r = requestId) swapReqs of
        None \<Rightarrow> (None, d)
      | Some request \<Rightarrow>
          (case (case (accept, shift request) of
                   (True, Some s) \<Rightarrow>
                     updateShift (updateShiftFault env) (shift_id s)
                       (noShiftPatch\<lparr>p_employeeId := Some (toEmployeeId request),
                          p_employeeName := Some (toEmployeeName request)\<rparr>) d
                 | _ \<Rightarrow> Inr d) of
             Inl e \<Rightarrow> (Some respondErrorToast, d)
           | Inr d1 \<Rightarrow>
               (case updateSwapRequest (updateSwapRequestFault env) requestId
                       (noSwapRequestPatch\<lparr>p_status := Some (if accept then Accepted else Declined)\<rparr>) d1 of
                  Inl e \<Rightarrow> (Some respondErrorToast, d1)
                | Inr d2 \<Rightarrow>
                    (case addActivityLog (addActivityLogFault env) (newLogId env)
                            (respondLog env user request accept) d2 of
                       Inl e \<Rightarrow> (Some respondErrorToast, d2)
                     | Inr (lid, d3) \<Rightarrow> (Some (respondToast accept), d3)))))"

text \<open>
  The sidebar (src/components/ConflictsSidebar.tsx) renders the Accept and Decline buttons
  of a request under the condition
  \<^verbatim>\<open>request.status === 'pending' && !isManager && onSwapResponse\<close>.
\<close>

definition showsResponseButtons :: "bool \<Rightarrow> bool \<Rightarrow> SwapRequest \<Rightarrow> bool" where
  "showsResponseButtons isManager hasOnSwapResponse request \<longleftrightarrow>
     status request = Pending \<and> \<not> isManager \<and> hasOnSwapResponse"

section \<open>Requesting a swap (src/components/ShiftSwapModal.tsx, src/pages/EmployeeDashboard.tsx)\<close>

text \<open>
  The modal lists the employees other than the current user, compared by account id, and
  hands the chosen one's account id and display name to \<open>handleSwapConfirm\<close>.
\<close>

definition availableEmployees :: "User list \<Rightarrow> string \<Rightarrow> User list" where
  "availableEmployees employees currentUserId =
     filter (\<lambda>e. user_id e \<noteq> currentUserId) employees"

text \<open>
  \<open>handleSwapConfirm\<close> returns at once when no shift is selected.  Otherwise it derives the
  two short identifiers from the display names, adds the request, adds the log entry and
  shows the success toast; a throwing store call is caught and shown as the error toast.
  The two clock readings and \<open>toLocaleDateString\<close> belong to the runtime and are arguments.
\<close>

record ConfirmEnv =
  addSwapRequestFault :: "StoreError option"
  confirmLogFault :: "StoreError option"
  newRequestId :: string
  confirmLogId :: string
  createdAtNow :: string
  confirmLogNow :: string
  toLocaleDateString :: "string \<Rightarrow> string"

definition shiftTypeName :: "ShiftType \<Rightarrow> string" where
  "shiftTypeName t = (case t of Day \<Rightarrow> ''day'' | Afternoon \<Rightarrow> ''afternoon'' | Night \<Rightarrow> ''night'')"

definition confirmErrorToast :: Toast where
  "confirmErrorToast =
     \<lparr>title = ''Error'', toast_description = ''Failed to send swap request. Please try again.'',
      destructive = True\<rparr>"

definition confirmToast :: "string \<Rightarrow> Toast" where
  "confirmToast targetEmployeeName =
     \<lparr>title = ''Swap Request Sent'',
      toast_description = ''Your swap request has been sent to '' @ targetEmployeeName @ ''.'',
      destructive = False\<rparr>"

definition confirmRequest ::
  "(string \<Rightarrow> string) \<Rightarrow> ConfirmEnv \<Rightarrow> User \<Rightarrow> Shift \<Rightarrow> string \<Rightarrow> SwapRequest" where
  "confirmRequest toLowerCase env user selectedShift targetEmployeeName =
     \<lparr>request_id = [],
      fromEmployeeId = toLowerCase (firstToken (name user)),
      fromEmployeeName = name user,
      toEmployeeId = toLowerCase (firstToken targetEmployeeName),
      toEmployeeName = targetEmployeeName,
      shiftId = shift_id selectedShift,
      shift = Some selectedShift,
      status = Pending,
      createdAt = createdAtNow env\<rparr>"

definition confirmLog :: "ConfirmEnv \<Rightarrow> User \<Rightarrow> Shift \<Rightarrow> ActivityLog" where
  "confirmLog env user selectedShift =
     \<lparr>log_id = [],
      log_type = swap_requested,
      description =
        name user @ '' requested to swap '' @ shiftTypeName (shift_type selectedShift)
          @ '' shift on '' @ toLocaleDateString env (date selectedShift),
      userId = user_id user,
      userName = name user,
      timestamp = confirmLogNow env\<rparr>"

definition handleSwapConfirm ::
  "(string \<Rightarrow> string) \<Rightarrow> ConfirmEnv \<Rightarrow> User \<Rightarrow> Shift option \<Rightarrow> string \<Rightarrow> string \<Rightarrow> db \<Rightarrow>
     Toast option \<times> db" where
  "handleSwapConfirm toLowerCase env user selectedShift targetEmployeeId targetEmployeeName d =
     (case selectedShift of
        None \<Rightarrow> (None, d)
      | Some sel \<Rightarrow>
          (case addSwapRequest (addSwapRequestFault env) (newRequestId env)
                  (confirmRequest toLowerCase env user sel targetEmployeeName) d of
             Inl e \<Rightarrow> (Some confirmErrorToast, d)
           | Inr (rid, d1) \<Rightarrow>
               (case addActivityLog (confirmLogFault env) (confirmLogId env)
                       (confirmLog env user sel) d1 of
                  Inl e \<Rightarrow> (Some confirmErrorToast, d1)
                | Inr (lid, d2) \<Rightarrow> (Some (confirmToast targetEmployeeName), d2))))"

section \<open>Shifts of one employee (getShiftsByEmployee in src/lib/firebaseService.ts)\<close>

text \<open>
  The two queries are served by the backing store.  A query with a \<open>where\<close> filter alone
  yields the matching documents in ascending order of document id; with
  \<open>orderBy('date', 'asc')\<close> it yields them in ascending order of the date string, documents
  with the same date in ascending order of document id.  The store compares strings byte by
  byte, which is the order of \<open>string\<close> here.
\<close>

definition queryWhereEmployee :: "Shift list \<Rightarrow> string \<Rightarrow> Shift list" where
  "queryWhereEmployee docs e = sort_key shift_id (filter (\<lambda>s. employeeId s = e) docs)"

definition queryWhereEmployeeOrderByDate :: "Shift list \<Rightarrow> string \<Rightarrow> Shift list" where
  "queryWhereEmployeeOrderByDate docs e =
     sort_key (\<lambda>s. (date s, shift_id s)) (filter (\<lambda>s. employeeId s = e) docs)"

text \<open>
  \<^verbatim>\<open>shifts.sort((a, b) => a.date.localeCompare(b.date))\<close>: \<open>Array.prototype.sort\<close> is a
  stable sort; an element goes before another when the comparator is negative and keeps
  its place relative to it when the comparator is zero.  \<open>localeCompare\<close> belongs to the
  runtime and is an argument.
\<close>

fun insertWith :: "('a \<Rightarrow> 'a \<Rightarrow> int) \<Rightarrow> 'a \<Rightarrow> 'a list \<Rightarrow> 'a list" where
  "insertWith cmp x [] = [x]"
| "insertWith cmp x (y # ys) = (if cmp x y \<le> 0 then x # y # ys else y # insertWith cmp x ys)"

definition sortWith :: "('a \<Rightarrow> 'a \<Rightarrow> int) \<Rightarrow> 'a list \<Rightarrow> 'a list" where
  "sortWith cmp xs = foldr (insertWith cmp) xs []"

record QueryEnv =
  orderedQueryFault :: "StoreError option"
  fallbackQueryFault :: "StoreError option"

definition getShiftsByEmployee ::
  "(string \<Rightarrow> string \<Rightarrow> int) \<Rightarrow> QueryEnv \<Rightarrow> db \<Rightarrow> string \<Rightarrow> StoreError + Shift list" where
  "getShiftsByEmployee localeCompare env d e =
     (case orderedQueryFault env of
        None \<Rightarrow> Inr (queryWhereEmployeeOrderByDate (shifts d) e)
      | Some error \<Rightarrow>
          if error = FailedPrecondition
          then (case fallbackQueryFault env of
                  Some error2 \<Rightarrow> Inl error2
                | None \<Rightarrow>
                    Inr (sortWith (\<lambda>a b. localeCompare (date a) (date b))
                           (queryWhereEmployee (shifts d) e)))
          else Inl error)"

section \<open>Shift generation (src/lib/shiftGenerator.ts)\<close>

record EmployeeEntry =
  entry_id :: string
  entry_name :: string

definition EMPLOYEES :: "EmployeeEntry list" where
  "EMPLOYEES =
    [\<lparr>entry_id = ''jessica'', entry_name = ''Jessica Martinez''\<rparr>,
     \<lparr>entry_id = ''sarah'', entry_name = ''Sarah Johnson''\<rparr>,
     \<lparr>entry_id = ''emma'', entry_name = ''Emma Wilson''\<rparr>,
     \<lparr>entry_id = ''mike'', entry_name = ''Mike Davis''\<rparr>,
     \<lparr>entry_id = ''john'', entry_name = ''John Smith''\<rparr>,
     \<lparr>entry_id = ''rachel'', entry_name = ''Rachel Taylor''\<rparr>,
     \<lparr>entry_id = ''david'', entry_name = ''David Lee''\<rparr>,
     \<lparr>entry_id = ''alex'', entry_name = ''Alex Brown''\<rparr>]"

record ShiftAssignment =
  asg_employeeId :: string
  asg_employeeName :: string
  asg_type :: ShiftType

definition SHIFT_TIMES :: "ShiftType \<Rightarrow> string \<times> string" where
  "SHIFT_TIMES t =
     (case t of
        Day \<Rightarrow> (''08:00'', ''16:00'')
      | Afternoon \<Rightarrow> (''16:00'', ''00:00'')
      | Night \<Rightarrow> (''00:00'', ''08:00''))"

text \<open>
  The loop of \<open>shuffleArray\<close> runs \<open>i\<close> from the last index down to 1, draws
  \<^verbatim>\<open>j = Math.floor(Math.random() * (i + 1))\<close> and exchanges the elements at \<open>i\<close> and \<open>j\<close>.
  The runtime evaluates the draw in double arithmetic; its value at the \<open>k\<close>-th call of
  \<open>Math.random()\<close> is the argument \<open>randomIndex k (i + 1)\<close>, and \<open>k\<close> counts the calls made so
  far.  \<open>Math.random()\<close> is at least 0 and less than 1, so the runtime's value is a whole
  number from 0 to \<open>i\<close>, and both reads are in range.
\<close>

fun shuffleLoop :: "(nat \<Rightarrow> nat \<Rightarrow> nat) \<Rightarrow> nat \<Rightarrow> nat \<Rightarrow> 'a list \<Rightarrow> 'a list" where
  "shuffleLoop randomIndex k 0 arr = arr"
| "shuffleLoop randomIndex k (Suc i) arr =
     (let j = randomIndex k (Suc i + 1)
      in shuffleLoop randomIndex (Suc k) i (arr[Suc i := arr ! j, j := arr ! Suc i]))"

definition shuffleArray :: "(nat \<Rightarrow> nat \<Rightarrow> nat) \<Rightarrow> nat \<Rightarrow> 'a list \<Rightarrow> 'a list" where
  "shuffleArray randomIndex k array = shuffleLoop randomIndex k (length array - 1) array"

definition assign :: "EmployeeEntry list \<Rightarrow> ShiftType \<Rightarrow> nat \<Rightarrow> ShiftAssignment" where
  "assign shuffled t i =
     \<lparr>asg_employeeId = entry_id (shuffled ! i), asg_employeeName = entry_name (shuffled ! i),
      asg_type = t\<rparr>"

definition generateDayAssignments :: "(nat \<Rightarrow> nat \<Rightarrow> nat) \<Rightarrow> nat \<Rightarrow> ShiftAssignment list" where
  "generateDayAssignments randomIndex k =
     (let shuffled = shuffleArray randomIndex k EMPLOYEES
      in map (assign shuffled Day) [0 ..< 2] @ map (assign shuffled Afternoon) [2 ..< 4]
           @ [assign shuffled Night 4])"

text \<open>
  A \<open>Date\<close> is its time value, the milliseconds since the epoch in UTC.  The runtime parses
  a string (\<open>new Date(s)\<close>: a date-only string is midnight UTC of that date, and an invalid
  date, here none, compares false with everything), knows the offset of local time from
  UTC, and prints calendar dates.  These are the fields of \<open>DateRuntime\<close>:
  \<^item> \<open>localTZA t\<close> is the offset in force at the time value \<open>t\<close>;
  \<^item> \<open>localTZAOfLocal l\<close> is the offset by which the local time \<open>l\<close> is ahead of UTC;
  \<^item> \<open>isoDateOfDay n\<close> is the calendar date \<open>YYYY-MM-DD\<close> of day \<open>n\<close> since the epoch.

  \<^verbatim>\<open>toISOString().split('T')[0]\<close> prints the UTC date of the time value, the date of the day
  \<open>t div msPerDay\<close>.  \<^verbatim>\<open>setDate(getDate() + 1)\<close> works on local time: it takes the local
  time of the time value, moves it to the same time of day on the next calendar day, and
  converts the result back to UTC.
\<close>

definition msPerDay :: int where
  "msPerDay = 86400000"

definition shiftOfAssignment :: "string \<Rightarrow> ShiftAssignment \<Rightarrow> Shift" where
  "shiftOfAssignment dateString assignment =
     \<lparr>shift_id = [],
      employeeId = asg_employeeId assignment,
      employeeName = asg_employeeName assignment,
      date = dateString,
      shift_type = asg_type assignment,
      startTime = fst (SHIFT_TIMES (asg_type assignment)),
      endTime = snd (SHIFT_TIMES (asg_type assignment))\<rparr>"

record DateRuntime =
  parseDate :: "string \<Rightarrow> int option"
  localTZA :: "int \<Rightarrow> int"
  localTZAOfLocal :: "int \<Rightarrow> int"
  isoDateOfDay :: "int \<Rightarrow> string"

definition toISODateString :: "DateRuntime \<Rightarrow> int \<Rightarrow> string" where
  "toISODateString rt t = isoDateOfDay rt (t div msPerDay)"

definition setDateNextDay :: "DateRuntime \<Rightarrow> int \<Rightarrow> int" where
  "setDateNextDay rt t =
     (let localTime = t + localTZA rt t;
          newDate = localTime + msPerDay
      in newDate - localTZAOfLocal rt newDate)"

text \<open>
  The loop of \<open>generateBalancedShifts\<close> pushes the five shifts of the current day and steps
  to the next day while the current date is not after the end.  Nothing in the code bounds
  the number of steps, so the result is an option: none when the loop does not end.
\<close>

partial_function (option) dayLoop ::
  "(nat \<Rightarrow> nat \<Rightarrow> nat) \<Rightarrow> DateRuntime \<Rightarrow> nat \<Rightarrow> int \<Rightarrow> int \<Rightarrow> Shift list \<Rightarrow> Shift list option" where
  "dayLoop randomIndex rt k currentDate end generated =
     (if currentDate \<le> end
      then dayLoop randomIndex rt (k + (length EMPLOYEES - 1)) (setDateNextDay rt currentDate) end
             (generated @
                map (shiftOfAssignment (toISODateString rt currentDate))
                  (generateDayAssignments randomIndex k))
      else Some generated)"

declare dayLoop.simps [code]

definition generateBalancedShifts ::
  "(nat \<Rightarrow> nat \<Rightarrow> nat) \<Rightarrow> DateRuntime \<Rightarrow> string \<Rightarrow> string \<Rightarrow> Shift list option" where
  "generateBalancedShifts randomIndex rt startDate endDate =
     (case (parseDate rt startDate, parseDate rt endDate) of
        (Some start, Some end) \<Rightarrow> dayLoop randomIndex rt 0 start end []
      | _ \<Rightarrow> Some [])"

section \<open>Diagnostics page\<close>

text \<open>
  The console lines of the diagnostics are values of a datatype, one constructor for each
  template string, with the interpolated values as arguments.  A JavaScript \<open>Map\<close> or
  \<open>Set\<close> keeps its keys in the order of their first insertion and is a list here.
\<close>

subsection \<open>The duplicate check of handleCheckShiftsByEmployee\<close>

text \<open>
  The check groups the fetched shifts in a \<open>Map\<close> under the key
  \<^verbatim>\<open>`${shift.date}-${shift.type}-${shift.employeeId}`\<close> and reports the groups with more
  than one shift.
\<close>

definition dupeKey :: "Shift \<Rightarrow> string" where
  "dupeKey s = date s @ ''-'' @ shiftTypeName (shift_type s) @ ''-'' @ employeeId s"

definition pushDupe :: "(string \<times> Shift list) list \<Rightarrow> Shift \<Rightarrow> (string \<times> Shift list) list" where
  "pushDupe dupes s =
     (let key = dupeKey s;
          dupes1 = (if key \<in> set (map fst dupes) then dupes else dupes @ [(key, [])])
      in map (\<lambda>(k, arr). if k = key then (k, arr @ [s]) else (k, arr)) dupes1)"

definition dupeGroups :: "Shift list \<Rightarrow> (string \<times> Shift list) list" where
  "dupeGroups shiftList = foldl pushDupe [] shiftList"

definition dupesFound :: "Shift list \<Rightarrow> Shift list list" where
  "dupesFound shiftList = filter (\<lambda>arr. length arr > 1) (map snd (dupeGroups shiftList))"

datatype QualityLine =
  DuplicateShiftsFound nat
  | DuplicateEntries string string nat
  | NoDuplicateShifts

definition duplicateCheck :: "Shift list \<Rightarrow> QualityLine list \<times> bool" where
  "duplicateCheck shiftList =
     (let found = dupesFound shiftList
      in if length found > 0
         then (DuplicateShiftsFound (length found)
                 # map (\<lambda>dupe. DuplicateEntries (employeeName (hd dupe)) (date (hd dupe)) (length dupe))
                     found,
               True)
         else ([NoDuplicateShifts], False))"

subsection \<open>The analysis of handleTestSwapRequests\<close>

text \<open>
  The page reads users, shifts and swap requests and makes no write.  The lines that list
  the fetched documents are left out; the analysis that follows them is modelled.  A read
  of a whole collection yields the documents in ascending order of document id.
\<close>

definition setOf :: "'a list \<Rightarrow> 'a list" where
  "setOf xs = foldl (\<lambda>acc x. if x \<in> set acc then acc else acc @ [x]) [] xs"




definition getUsers :: "StoreError option \<Rightarrow> db \<Rightarrow> StoreError + User list" where
  "getUsers fault d = (case fault of Some e \<Rightarrow> Inl e | None \<Rightarrow> Inr (sort_key user_id (users d)))"





section \<open>The swap-request subscription (subscribeToSwapRequests in src/lib/firebaseService.ts)\<close>

text \<open>
  On every change the store hands the listener the requests whose \<open>toEmployeeId\<close> is the
  given id.  The listener maps an asynchronous function over them, awaits \<open>Promise.all\<close>
  of the results and then calls the callback with the resolved array.  The function looks
  the shift up by id when the request has no snapshot and a non-empty \<open>shiftId\<close>; whatever is
  thrown inside is caught and logged, and the request is returned as it then is.  A promise
  is a sum here: \<open>Inl\<close> when it rejects, \<open>Inr\<close> when it resolves.  \<open>lookupFault i\<close> is what the
  store decides for the lookup of the request at position \<open>i\<close>.  The result is the argument
  the callback is called with, and none when \<open>Promise.all\<close> rejects and the callback is not
  called.
\<close>

definition getDoc ::
  "StoreError option \<Rightarrow> ('d \<Rightarrow> string) \<Rightarrow> string \<Rightarrow> 'd list \<Rightarrow> StoreError + 'd option" where
  "getDoc fault ident docId docs =
     (case fault of
        Some e \<Rightarrow> Inl e
      | None \<Rightarrow> Inr (find (\<lambda>x. ident x = docId) docs))"

definition enrichRequest :: "StoreError option \<Rightarrow> Shift list \<Rightarrow> SwapRequest \<Rightarrow> StoreError + SwapRequest" where
  "enrichRequest fault shiftDocs req =
     (case (if shift req = None \<and> shiftId req \<noteq> []
            then (case getDoc fault shift_id (shiftId req) shiftDocs of
                    Inl e \<Rightarrow> Inl e
                  | Inr None \<Rightarrow> Inr req
                  | Inr (Some s) \<Rightarrow> Inr (req\<lparr>shift := Some s\<rparr>))
            else Inr req) of
        Inl error \<Rightarrow> Inr req
      | Inr r \<Rightarrow> Inr r)"

fun promiseAll :: "('e + 'a) list \<Rightarrow> 'e + 'a list" where
  "promiseAll [] = Inr []"
| "promiseAll (p # ps) =
     (case p of
        Inl e \<Rightarrow> Inl e
      | Inr v \<Rightarrow> (case promiseAll ps of Inl e \<Rightarrow> Inl e | Inr vs \<Rightarrow> Inr (v # vs)))"

definition swapRequestsFor :: "db \<Rightarrow> string \<Rightarrow> SwapRequest list" where
  "swapRequestsFor d e = sort_key request_id (filter (\<lambda>r. toEmployeeId r = e) (swapRequests d))"

definition onSwapRequestsSnapshot ::
  "(nat \<Rightarrow> StoreError option) \<Rightarrow> db \<Rightarrow> string \<Rightarrow> SwapRequest list option" where
  "onSwapRequestsSnapshot lookupFault d e =
     (let requests = swapRequestsFor d e
      in case promiseAll
                (map (\<lambda>i. enrichRequest (lookupFault i) (shifts d) (requests ! i))
                   [0 ..< length requests]) of
           Inl error \<Rightarrow> None
         | Inr enrichedRequests \<Rightarrow> Some enrichedRequests)"

section \<open>Signup and login (src/pages/Signup.tsx, the login page, src/data/mockData.ts)\<close>

text \<open>
  \<open>testCredentials\<close> is a module-level object: it starts with the value below whenever the
  application is loaded, and \<open>handleSignup\<close> pushes onto its list of employees.  The current
  value is passed in and returned.
\<close>

record Credential =
  cred_email :: string
  cred_name :: string
  cred_password :: string

record TestCredentials =
  credEmployees :: "Credential list"
  credManager :: Credential

definition testCredentials :: TestCredentials where
  "testCredentials =
     \<lparr>credEmployees =
        [\<lparr>cred_email = ''john@schedulo.com'', cred_name = ''John Smith'', cred_password = ''password123''\<rparr>,
         \<lparr>cred_email = ''sarah@schedulo.com'', cred_name = ''Sarah Johnson'', cred_password = ''password123''\<rparr>,
         \<lparr>cred_email = ''mike@schedulo.com'', cred_name = ''Mike Davis'', cred_password = ''password123''\<rparr>,
         \<lparr>cred_email = ''emma@schedulo.com'', cred_name = ''Emma Wilson'', cred_password = ''password123''\<rparr>,
         \<lparr>cred_email = ''alex@schedulo.com'', cred_name = ''Alex Brown'', cred_password = ''password123''\<rparr>,
         \<lparr>cred_email = ''jessica@schedulo.com'', cred_name = ''Jessica Martinez'', cred_password = ''password123''\<rparr>,
         \<lparr>cred_email = ''david@schedulo.com'', cred_name = ''David Lee'', cred_password = ''password123''\<rparr>,
         \<lparr>cred_email = ''rachel@schedulo.com'', cred_name = ''Rachel Taylor'', cred_password = ''password123''\<rparr>],
      credManager =
        \<lparr>cred_email = ''manager@schedulo.com'', cred_name = ''Alex Manager'', cred_password = ''admin123''\<rparr>\<rparr>"

definition addUser :: "StoreError option \<Rightarrow> string \<Rightarrow> User \<Rightarrow> db \<Rightarrow> StoreError + (string \<times> db)" where
  "addUser fault newId u d =
     (case fault of
        Some e \<Rightarrow> Inl e
      | None \<Rightarrow> Inr (newId, d\<lparr>users := users d @ [u\<lparr>user_id := newId\<rparr>]\<rparr>))"

datatype SignupOutcome = SignupError string | AccountCreated

record SignupEnv =
  signupGetUsersFault :: "StoreError option"
  addUserFault :: "StoreError option"
  newUserId :: string

text \<open>
  The document that \<open>handleSignup\<close> adds is the object literal \<^verbatim>\<open>{ email, name, role: 'employee' }\<close>;
  it has no password field.
\<close>

definition handleSignup ::
  "(string \<Rightarrow> string) \<Rightarrow> SignupEnv \<Rightarrow> string \<Rightarrow> string \<Rightarrow> string \<Rightarrow> TestCredentials \<times> db \<Rightarrow>
     SignupOutcome \<times> TestCredentials \<times> db" where
  "handleSignup toLowerCase env nm em pw st =
     (case st of (creds, d) \<Rightarrow>
        (case getUsers (signupGetUsersFault env) d of
           Inl e \<Rightarrow> (SignupError ''Failed to create account. Please try again.'', creds, d)
         | Inr existingUsers \<Rightarrow>
             (case find (\<lambda>u. toLowerCase (email u) = toLowerCase em) existingUsers of
                Some userExists \<Rightarrow>
                  (SignupError ''Email already registered. Please login instead.'', creds, d)
              | None \<Rightarrow>
                  (case addUser (addUserFault env) (newUserId env)
                          \<lparr>user_id = [], email = em, name = nm, role = Employee, password = None\<rparr> d of
                     Inl e \<Rightarrow> (SignupError ''Failed to create account. Please try again.'', creds, d)
                   | Inr (uid, d1) \<Rightarrow>
                       (AccountCreated,
                        creds\<lparr>credEmployees := credEmployees creds
                                 @ [\<lparr>cred_email = em, cred_name = nm, cred_password = pw\<rparr>]\<rparr>,
                        d1)))))"

datatype LoginOutcome = NavigateToDashboard User | AuthError string

text \<open>
  \<open>handleLogin\<close> works on the users that the login page fetched when it was mounted.  A stored
  user matches \<^verbatim>\<open>u.password === password\<close> only when the document has the field with
  that value.
\<close>

definition handleLogin :: "TestCredentials \<Rightarrow> User list \<Rightarrow> string \<Rightarrow> string \<Rightarrow> LoginOutcome" where
  "handleLogin creds userList em pw =
     (case (if em = cred_email (credManager creds) \<and> pw = cred_password (credManager creds)
            then find (\<lambda>u. role u = Manager) userList
            else None) of
        Some manager \<Rightarrow> NavigateToDashboard manager
      | None \<Rightarrow>
          (case (case find (\<lambda>cred. cred_email cred = em \<and> cred_password cred = pw)
                        (credEmployees creds) of
                   Some employeeCredential \<Rightarrow> find (\<lambda>u. email u = em) userList
                 | None \<Rightarrow> None) of
             Some employee \<Rightarrow> NavigateToDashboard employee
           | None \<Rightarrow>
               (case find (\<lambda>u. email u = em \<and> password u = Some pw) userList of
                  Some dbUser \<Rightarrow> NavigateToDashboard dbUser
                | None \<Rightarrow>
                    AuthError ''Invalid email or password. Ensure database is initialized first.'')))"

section \<open>Example data\<close>

text \<open>
  Scenario A of the specification: John Smith owns a day shift on 2024-11-27 and asks
  Sarah Johnson to take it.
\<close>

definition exShift :: Shift where
  "exShift = \<lparr>shift_id = ''s1'', employeeId = ''john'', employeeName = ''John Smith'',
     date = ''2024-11-27'', shift_type = Day, startTime = ''08:00'', endTime = ''16:00''\<rparr>"

definition exRequest :: SwapRequest where
  "exRequest = \<lparr>request_id = ''r1'', fromEmployeeId = ''john'', fromEmployeeName = ''John Smith'',
     toEmployeeId = ''sarah'', toEmployeeName = ''Sarah Johnson'', shiftId = ''s1'',
     shift = Some exShift, status = Pending, createdAt = ''2024-11-20T10:00:00.000Z''\<rparr>"

definition exSarah :: User where
  "exSarah = \<lparr>user_id = ''u2'', email = ''sarah@schedulo.com'', name = ''Sarah Johnson'',
     role = Employee, password = None\<rparr>"

definition exDb :: db where
  "exDb = \<lparr>users = [exSarah], shifts = [exShift], swapRequests = [exRequest], activityLogs = []\<rparr>"

definition exEnv :: RespondEnv where
  "exEnv = \<lparr>updateShiftFault = None, updateSwapRequestFault = None, addActivityLogFault = None,
     newLogId = ''l1'', now = ''2024-11-21T09:00:00.000Z''\<rparr>"

text \<open>
  The recipient has the dashboard open in two windows.  In one window they decline (or
  accept) the request.  The other window still shows the batch delivered before, in which
  the request is pending, and there they answer a second time a few minutes later.
\<close>

definition exDbDeclined :: db where
  "exDbDeclined = snd (handleSwapResponse exEnv exSarah [exRequest] ''r1'' False exDb)"

definition exDbAccepted :: db where
  "exDbAccepted = snd (handleSwapResponse exEnv exSarah [exRequest] ''r1'' True exDb)"

definition exEnvLater :: RespondEnv where
  "exEnvLater = exEnv\<lparr>newLogId := ''l2'', now := ''2024-11-21T09:05:00.000Z''\<rparr>"

definition exJohn :: User where
  "exJohn = \<lparr>user_id = ''u1'', email = ''john@schedulo.com'', name = ''John Smith'',
     role = Employee, password = None\<rparr>"

definition exJohnDoe :: User where
  "exJohnDoe = \<lparr>user_id = ''u9'', email = ''john.doe@schedulo.com'', name = ''John Doe'',
     role = Employee, password = None\<rparr>"

definition exConfirmEnv :: ConfirmEnv where
  "exConfirmEnv = \<lparr>addSwapRequestFault = None, confirmLogFault = None, newRequestId = ''r2'',
     confirmLogId = ''l2'', createdAtNow = ''2024-11-20T10:00:00.000Z'',
     confirmLogNow = ''2024-11-20T10:00:01.000Z'', toLocaleDateString = (\<lambda>s. s)\<rparr>"

definition exEmptyDb :: db where
  "exEmptyDb = \<lparr>users = [exJohn, exJohnDoe], shifts = [exShift], swapRequests = [],
     activityLogs = []\<rparr>"

text \<open>
  A comparator that orders strings as the store does.  On ISO dates (\<open>YYYY-MM-DD\<close>: digits
  and hyphens at fixed positions) \<open>localeCompare\<close> orders in this way.
\<close>

definition byteCompare :: "string \<Rightarrow> string \<Rightarrow> int" where
  "byteCompare a b = (if a < b then - 1 else if a = b then 0 else 1)"

definition exShifts3 :: "Shift list" where
  "exShifts3 =
    [exShift\<lparr>shift_id := ''s3'', date := ''2024-11-29''\<rparr>,
     exShift\<lparr>shift_id := ''s2'', date := ''2024-11-27'', shift_type := Night\<rparr>,
     exShift\<lparr>shift_id := ''s4'', employeeId := ''sarah'', employeeName := ''Sarah Johnson''\<rparr>,
     exShift]"

definition exQueryDb :: db where
  "exQueryDb = \<lparr>users = [], shifts = exShifts3, swapRequests = [], activityLogs = []\<rparr>"

text \<open>
  A runtime in the time zone Europe/Berlin around the change to summer time on 31 March
  2024: the offset is one hour until 01:00 UTC of that day and two hours from then on.  A
  local time in the hour that the change skips (02:00 to 03:00) is taken with the offset
  before the change.  The two dates are parsed as midnight UTC.  Every draw is 0, as when
  \<open>Math.random()\<close> returns 0.
\<close>

definition exBerlin :: DateRuntime where
  "exBerlin =
     \<lparr>parseDate =
        (\<lambda>s. if s = ''2024-03-30'' then Some 1711756800000
             else if s = ''2024-04-01'' then Some 1711929600000
             else None),
      localTZA = (\<lambda>t. if t < 1711846800000 then 3600000 else 7200000),
      localTZAOfLocal = (\<lambda>l. if l < 1711846800000 + 7200000 then 3600000 else 7200000),
      isoDateOfDay =
        (\<lambda>n. if n = 19812 then ''2024-03-30''
             else if n = 19813 then ''2024-03-31''
             else if n = 19814 then ''2024-04-01''
             else [])\<rparr>"

definition exZeroDraws :: "nat \<Rightarrow> nat \<Rightarrow> nat" where
  "exZeroDraws k n = 0"




text \<open>
  An inbox of sarah with three requests without snapshot: one whose shift exists, one whose
  shift is gone, and one whose lookup the store fails.  A fourth request is addressed to
  someone else.
\<close>

definition exInboxDb :: db where
  "exInboxDb =
     \<lparr>users = [], shifts = [exShift],
      swapRequests =
        [exRequest\<lparr>request_id := ''r3'', shift := None\<rparr>,
         exRequest\<lparr>request_id := ''r2'', shift := None, shiftId := ''s9''\<rparr>,
         exRequest\<lparr>request_id := ''r1'', shift := None\<rparr>,
         exRequest\<lparr>request_id := ''r0'', toEmployeeId := ''mike''\<rparr>],
      activityLogs = []\<rparr>"

definition exLookupFault :: "nat \<Rightarrow> StoreError option" where
  "exLookupFault i = (if i = 2 then Some Unavailable else None)"

text \<open>A new employee signs up.\<close>

definition exSignupEnv :: SignupEnv where
  "exSignupEnv = \<lparr>signupGetUsersFault = None, addUserFault = None, newUserId = ''u10''\<rparr>"

definition exNina :: User where
  "exNina = \<lparr>user_id = ''u10'', email = ''nina@schedulo.com'', name = ''Nina Patel'',
     role = Employee, password = None\<rparr>"

definition exNinaCredential :: Credential where
  "exNinaCredential =
     \<lparr>cred_email = ''nina@schedulo.com'', cred_name = ''Nina Patel'', cred_password = ''secret123''\<rparr>"

text \<open>
  Someone signs up with the email of a built-in credential on a store that has no user
  with that email, and chooses a password of their own.
\<close>

definition exFreshDb :: db where
  "exFreshDb = \<lparr>users = [], shifts = [], swapRequests = [], activityLogs = []\<rparr>"

definition exJohnSignedUp :: User where
  "exJohnSignedUp = \<lparr>user_id = ''u10'', email = ''john@schedulo.com'', name = ''John Smith'',
     role = Employee, password = None\<rparr>"

definition exJohnCredential :: Credential where
  "exJohnCredential =
     \<lparr>cred_email = ''john@schedulo.com'', cred_name = ''John Smith'', cred_password = ''mysecret1''\<rparr>"

section \<open>Facts about the store and the response handler\<close>

lemma updateDoc_find:
  assumes "updateDoc fault ident k f docs = Inr docs'"
  shows "\<exists>old. find (\<lambda>x. ident x = k) docs = Some old \<and> ident old = k \<and>
     (ident (f old) = k \<longrightarrow> find (\<lambda>x. ident x = k) docs' = Some (f old))"
proof -
  from assms have n: "fault = None" and m: "k \<in> set (map ident docs)"
    and d: "docs' = map (\<lambda>x. if ident x = k then f x else x) docs"
    by (auto simp: updateDoc_def split: option.splits if_splits)
  have "k \<in> set (map ident xs) \<Longrightarrow> \<exists>old. find (\<lambda>x. ident x = k) xs = Some old \<and> ident old = k \<and>
     (ident (f old) = k \<longrightarrow> find (\<lambda>x. ident x = k) (map (\<lambda>x. if ident x = k then f x else x) xs) = Some (f old))" for xs
    by (induction xs) auto
  with m d show ?thesis by blast
qed

lemma shift_id_applyShiftPatch [simp]: "shift_id (applyShiftPatch p s) = shift_id s"
  by (simp add: applyShiftPatch_def)

lemma request_id_applySwapRequestPatch [simp]:
  "request_id (applySwapRequestPatch p r) = request_id r"
  by (simp add: applySwapRequestPatch_def)

lemma updateShift_Inr:
  assumes "updateShift fault sid p d = Inr d'"
  shows "\<exists>old. find (\<lambda>x. shift_id x = sid) (shifts d) = Some old \<and>
     find (\<lambda>x. shift_id x = sid) (shifts d') = Some (applyShiftPatch p old) \<and>
     swapRequests d' = swapRequests d \<and> activityLogs d' = activityLogs d \<and> users d' = users d"
proof -
  from assms obtain docs where u: "updateDoc fault shift_id sid (applyShiftPatch p) (shifts d) = Inr docs"
    and d': "d' = d\<lparr>shifts := docs\<rparr>"
    by (auto simp: updateShift_def split: sum.splits)
  from updateDoc_find [OF u] d' show ?thesis by auto
qed

lemma updateSwapRequest_Inr:
  assumes "updateSwapRequest fault rid p d = Inr d'"
  shows "\<exists>old. find (\<lambda>x. request_id x = rid) (swapRequests d) = Some old \<and>
     find (\<lambda>x. request_id x = rid) (swapRequests d') = Some (applySwapRequestPatch p old) \<and>
     shifts d' = shifts d \<and> activityLogs d' = activityLogs d \<and> users d' = users d"
proof -
  from assms obtain docs where u: "updateDoc fault request_id rid (applySwapRequestPatch p) (swapRequests d) = Inr docs"
    and d': "d' = d\<lparr>swapRequests := docs\<rparr>"
    by (auto simp: updateSwapRequest_def split: sum.splits)
  from updateDoc_find [OF u] d' show ?thesis by auto
qed

lemma addActivityLog_Inr:
  assumes "addActivityLog fault newId l d = Inr (k, d')"
  shows "k = newId \<and> activityLogs d' = activityLogs d @ [l\<lparr>log_id := newId\<rparr>] \<and>
     shifts d' = shifts d \<and> swapRequests d' = swapRequests d \<and> users d' = users d"
  using assms by (auto simp: addActivityLog_def split: option.splits)

lemma respondToast_neq_error [simp]:
  "respondToast a \<noteq> respondErrorToast" "respondErrorToast \<noteq> respondToast a"
  by (simp_all add: respondToast_def respondErrorToast_def)

lemma handleSwapResponse_success:
  assumes found: "find (\<lambda>r. request_id r = requestId) swapReqs = Some request"
    and ok: "handleSwapResponse env user swapReqs requestId accept d = (Some (respondToast accept), d')"
  shows "\<exists>d1 d2.
     (case (accept, shift request) of
        (True, Some s) \<Rightarrow>
          updateShift (updateShiftFault env) (shift_id s)
            (noShiftPatch\<lparr>p_employeeId := Some (toEmployeeId request),
               p_employeeName := Some (toEmployeeName request)\<rparr>) d
      | _ \<Rightarrow> Inr d) = Inr d1 \<and>
     updateSwapRequest (updateSwapRequestFault env) requestId
       (noSwapRequestPatch\<lparr>p_status := Some (if accept then Accepted else Declined)\<rparr>) d1 = Inr d2 \<and>
     addActivityLog (addActivityLogFault env) (newLogId env)
       (respondLog env user request accept) d2 = Inr (newLogId env, d')"
  using ok found
  by (auto simp: handleSwapResponse_def addActivityLog_def split: sum.splits option.splits prod.splits bool.splits)

lemma find_map_status:
  "find (\<lambda>r. request_id r = k) (map (\<lambda>r. r\<lparr>status := f r\<rparr>) rs) =
   map_option (\<lambda>r. r\<lparr>status := f r\<rparr>) (find (\<lambda>r. request_id r = k) rs)"
  by (induction rs) auto

lemma respondLog_status [simp]:
  "respondLog env user (r\<lparr>status := st\<rparr>) accept = respondLog env user r accept"
  by (simp add: respondLog_def)

lemma handleSwapResponse_ignores_status:
  "handleSwapResponse env user (map (\<lambda>r. r\<lparr>status := f r\<rparr>) swapReqs) requestId accept d =
   handleSwapResponse env user swapReqs requestId accept d"
  by (cases "find (\<lambda>r. request_id r = requestId) swapReqs")
     (simp_all add: handleSwapResponse_def find_map_status
        cong: option.case_cong sum.case_cong)

lemma handleSwapResponse_sets_status:
  assumes found: "find (\<lambda>r. request_id r = requestId) swapReqs = Some request"
    and ok: "handleSwapResponse env user swapReqs requestId accept d = (Some (respondToast accept), d')"
  shows "\<exists>r'. find (\<lambda>x. request_id x = requestId) (swapRequests d') = Some r' \<and>
     status r' = (if accept then Accepted else Declined)"
proof -
  from handleSwapResponse_success [OF found ok] obtain d1 d2 where
    u2: "updateSwapRequest (updateSwapRequestFault env) requestId
       (noSwapRequestPatch\<lparr>p_status := Some (if accept then Accepted else Declined)\<rparr>) d1 = Inr d2"
    and u3: "addActivityLog (addActivityLogFault env) (newLogId env)
       (respondLog env user request accept) d2 = Inr (newLogId env, d')"
    by blast
  from updateSwapRequest_Inr [OF u2] obtain old where
    "find (\<lambda>x. request_id x = requestId) (swapRequests d2) =
       Some (applySwapRequestPatch (noSwapRequestPatch\<lparr>p_status := Some (if accept then Accepted else Declined)\<rparr>) old)"
    by blast
  moreover from addActivityLog_Inr [OF u3] have "swapRequests d' = swapRequests d2" by blast
  ultimately show ?thesis
    by (simp add: applySwapRequestPatch_def noSwapRequestPatch_def orElse_def)
qed

lemmas ex_defs = exShift_def exRequest_def exSarah_def exDb_def exEnv_def

lemmas respond_defs = handleSwapResponse_def updateShift_def updateSwapRequest_def
  addActivityLog_def updateDoc_def applyShiftPatch_def applySwapRequestPatch_def
  noShiftPatch_def noSwapRequestPatch_def orElse_def respondLog_def

section \<open>Accepting a swap transfers the shift\<close>

text \<open>
  Claim C1.  Take a request of the component's list that is pending and carries its shift
  snapshot.  When \<open>handleSwapResponse\<close> with \<open>accept = true\<close> ends with the success toast
  (no store call threw), the stored shift with the snapshot's id existed before, and
  afterwards its owner id and owner name are the request's recipient id and recipient
  name, while its date, type, start time and end time are those it had before the call.
\<close>

theorem accept_transfers_ownership:
  assumes found: "find (\<lambda>r. request_id r = requestId) swapReqs = Some request"
    and pending: "status request = Pending"
    and snap: "shift request = Some s"
    and ok: "handleSwapResponse env user swapReqs requestId True d = (Some (respondToast True), d')"
  shows "\<exists>old new.
     find (\<lambda>x. shift_id x = shift_id s) (shifts d) = Some old \<and>
     find (\<lambda>x. shift_id x = shift_id s) (shifts d') = Some new \<and>
     employeeId new = toEmployeeId request \<and>
     employeeName new = toEmployeeName request \<and>
     date new = date old \<and> shift_type new = shift_type old \<and>
     startTime new = startTime old \<and> endTime new = endTime old"
proof -
  let ?p = "noShiftPatch\<lparr>p_employeeId := Some (toEmployeeId request),
               p_employeeName := Some (toEmployeeName request)\<rparr>"
  from handleSwapResponse_success [OF found ok] snap obtain d1 d2 where
    u1: "updateShift (updateShiftFault env) (shift_id s) ?p d = Inr d1"
    and u2: "updateSwapRequest (updateSwapRequestFault env) requestId
       (noSwapRequestPatch\<lparr>p_status := Some Accepted\<rparr>) d1 = Inr d2"
    and u3: "addActivityLog (addActivityLogFault env) (newLogId env)
       (respondLog env user request True) d2 = Inr (newLogId env, d')"
    by auto
  from updateShift_Inr [OF u1] obtain old where
    o: "find (\<lambda>x. shift_id x = shift_id s) (shifts d) = Some old"
    and n: "find (\<lambda>x. shift_id x = shift_id s) (shifts d1) = Some (applyShiftPatch ?p old)"
    by blast
  from updateSwapRequest_Inr [OF u2] have "shifts d2 = shifts d1" by blast
  moreover from addActivityLog_Inr [OF u3] have "shifts d' = shifts d2" by blast
  ultimately have n': "find (\<lambda>x. shift_id x = shift_id s) (shifts d') = Some (applyShiftPatch ?p old)"
    using n by simp
  show ?thesis
    using o n' by (simp add: applyShiftPatch_def noShiftPatch_def orElse_def)
qed

theorem accept_transfers_ownership_witness:
  "find (\<lambda>r. request_id r = ''r1'') [exRequest] = Some exRequest \<and>
   status exRequest = Pending \<and> shift exRequest = Some exShift \<and>
   fst (handleSwapResponse exEnv exSarah [exRequest] ''r1'' True exDb) = Some (respondToast True) \<and>
   (\<exists>old new.
     find (\<lambda>x. shift_id x = shift_id exShift) (shifts exDb) = Some old \<and>
     find (\<lambda>x. shift_id x = shift_id exShift)
       (shifts (snd (handleSwapResponse exEnv exSarah [exRequest] ''r1'' True exDb))) = Some new \<and>
     employeeId new = toEmployeeId exRequest \<and>
     employeeName new = toEmployeeName exRequest \<and>
     date new = date old \<and> shift_type new = shift_type old \<and>
     startTime new = startTime old \<and> endTime new = endTime old)"
proof -
  have f: "find (\<lambda>r. request_id r = ''r1'') [exRequest] = Some exRequest"
    by (simp add: exRequest_def)
  have p: "status exRequest = Pending" and s: "shift exRequest = Some exShift"
    by (simp_all add: exRequest_def)
  have t: "fst (handleSwapResponse exEnv exSarah [exRequest] ''r1'' True exDb) = Some (respondToast True)"
    by (simp add: ex_defs respond_defs)
  then have h: "handleSwapResponse exEnv exSarah [exRequest] ''r1'' True exDb =
      (Some (respondToast True), snd (handleSwapResponse exEnv exSarah [exRequest] ''r1'' True exDb))"
    by (metis prod.collapse)
  from accept_transfers_ownership [OF f p s h] f p s t show ?thesis by blast
qed

section \<open>Responding to a request that is already resolved\<close>

lemmas stale_defs = exDbDeclined_def exDbAccepted_def exEnvLater_def

text \<open>
  Claim C2, as amended.  The handler has no check of the request's status; the check is
  the rendering condition of the sidebar.  The sidebar shows the Accept and Decline
  buttons of a request exactly when the request's status in the component's list is
  pending, the viewer is not a manager and the handler was passed to the sidebar.
  \<open>handleSwapResponse\<close> itself gives the same result whatever the statuses of the requests
  in the component's list are, and whenever it ends with the success toast the stored
  request has the status chosen by \<open>accept\<close>, whatever its status was before.
\<close>

theorem respond_gate_is_in_sidebar:
  "(showsResponseButtons isManager hasOnSwapResponse shown \<longleftrightarrow>
      status shown = Pending \<and> \<not> isManager \<and> hasOnSwapResponse) \<and>
   handleSwapResponse env user (map (\<lambda>r. r\<lparr>status := f r\<rparr>) swapReqs) requestId accept d =
     handleSwapResponse env user swapReqs requestId accept d \<and>
   (find (\<lambda>r. request_id r = requestId) swapReqs = Some request \<longrightarrow>
    handleSwapResponse env user swapReqs requestId accept d = (Some (respondToast accept), d') \<longrightarrow>
    (\<exists>r'. find (\<lambda>x. request_id x = requestId) (swapRequests d') = Some r' \<and>
       status r' = (if accept then Accepted else Declined)))"
  using handleSwapResponse_sets_status [of requestId swapReqs request env user accept d d']
  by (simp add: showsResponseButtons_def handleSwapResponse_ignores_status)

theorem respond_gate_is_in_sidebar_witness:
  "showsResponseButtons False True exRequest \<and>
   \<not> showsResponseButtons True True exRequest \<and>
   map status (swapRequests exDbAccepted) = [Accepted] \<and>
   find (\<lambda>r. request_id r = ''r1'') [exRequest] = Some exRequest \<and>
   fst (handleSwapResponse exEnvLater exSarah [exRequest] ''r1'' False exDbAccepted) =
     Some (respondToast False) \<and>
   (\<exists>r'. find (\<lambda>x. request_id x = ''r1'')
       (swapRequests (snd (handleSwapResponse exEnvLater exSarah [exRequest] ''r1'' False exDbAccepted))) = Some r' \<and>
       status r' = Declined)"
proof -
  let ?h = "handleSwapResponse exEnvLater exSarah [exRequest] ''r1'' False exDbAccepted"
  have p: "status exRequest = Pending" by (simp add: exRequest_def)
  have a: "map status (swapRequests exDbAccepted) = [Accepted]"
    by (simp add: stale_defs ex_defs respond_defs)
  have f: "find (\<lambda>r. request_id r = ''r1'') [exRequest] = Some exRequest"
    by (simp add: exRequest_def)
  have t: "fst ?h = Some (respondToast False)"
    by (simp add: stale_defs ex_defs respond_defs)
  then have h: "?h = (Some (respondToast False), snd ?h)"
    by (metis prod.collapse)
  note th = respond_gate_is_in_sidebar [where hasOnSwapResponse = True
      and shown = exRequest and request = exRequest and env = exEnvLater and user = exSarah
      and f = status and swapReqs = "[exRequest]" and requestId = "''r1''" and accept = False
      and d = exDbAccepted and d' = "snd ?h"]
  from th [where isManager = False] p have g: "showsResponseButtons False True exRequest"
    by blast
  from th [where isManager = True] have m: "\<not> showsResponseButtons True True exRequest"
    by blast
  from th [where isManager = False] f h
  have "\<exists>r'. find (\<lambda>x. request_id x = ''r1'') (swapRequests (snd ?h)) = Some r' \<and>
      status r' = (if False then Accepted else Declined)"
    by blast
  then have e: "\<exists>r'. find (\<lambda>x. request_id x = ''r1'') (swapRequests (snd ?h)) = Some r' \<and>
      status r' = Declined"
    by simp
  from g m a f t e show ?thesis by blast
qed

text \<open>
  The claim as stated fails.  The stored request is already declined and the shift is
  still john's; the window that still lists the request as pending shows the buttons, and
  accepting there moves the shift to sarah and rewrites the stored status to accepted.
  In the same way a stored request that is already accepted is rewritten to declined,
  while the shift stays with sarah.
\<close>

theorem respond_rejects_terminal_counterexample:
  "map status (swapRequests exDbDeclined) = [Declined] \<and>
   map employeeId (shifts exDbDeclined) = [''john''] \<and>
   showsResponseButtons False True exRequest \<and>
   fst (handleSwapResponse exEnvLater exSarah [exRequest] ''r1'' True exDbDeclined) =
     Some (respondToast True) \<and>
   map employeeId (shifts (snd (handleSwapResponse exEnvLater exSarah [exRequest] ''r1'' True exDbDeclined))) =
     [''sarah''] \<and>
   map status (swapRequests (snd (handleSwapResponse exEnvLater exSarah [exRequest] ''r1'' True exDbDeclined))) =
     [Accepted] \<and>
   map status (swapRequests exDbAccepted) = [Accepted] \<and>
   map employeeId (shifts exDbAccepted) = [''sarah''] \<and>
   fst (handleSwapResponse exEnvLater exSarah [exRequest] ''r1'' False exDbAccepted) =
     Some (respondToast False) \<and>
   map status (swapRequests (snd (handleSwapResponse exEnvLater exSarah [exRequest] ''r1'' False exDbAccepted))) =
     [Declined] \<and>
   map employeeId (shifts (snd (handleSwapResponse exEnvLater exSarah [exRequest] ''r1'' False exDbAccepted))) =
     [''sarah'']"
  by (simp add: showsResponseButtons_def stale_defs ex_defs respond_defs)

section \<open>Accepting without a shift snapshot\<close>

text \<open>
  Claim C9.  For a pending request of the component's list without shift snapshot, whose
  document is in the store, and with the store serving the two writes, accepting ends with
  the success toast, leaves the shifts collection as it was, sets the stored request's
  status to accepted and appends one \<open>swap_accepted\<close> entry to the activity log.
\<close>

theorem accept_without_snapshot_skips_transfer:
  assumes found: "find (\<lambda>r. request_id r = requestId) swapReqs = Some request"
    and pending: "status request = Pending"
    and nosnap: "shift request = None"
    and stored: "requestId \<in> set (map request_id (swapRequests d))"
    and f2: "updateSwapRequestFault env = None"
    and f3: "addActivityLogFault env = None"
  shows "\<exists>d' r'.
     handleSwapResponse env user swapReqs requestId True d = (Some (respondToast True), d') \<and>
     shifts d' = shifts d \<and>
     find (\<lambda>x. request_id x = requestId) (swapRequests d') = Some r' \<and> status r' = Accepted \<and>
     activityLogs d' = activityLogs d @ [(respondLog env user request True)\<lparr>log_id := newLogId env\<rparr>] \<and>
     log_type (last (activityLogs d')) = swap_accepted"
proof -
  let ?p = "noSwapRequestPatch\<lparr>p_status := Some Accepted\<rparr>"
  let ?docs = "map (\<lambda>x. if request_id x = requestId then applySwapRequestPatch ?p x else x) (swapRequests d)"
  let ?d2 = "d\<lparr>swapRequests := ?docs\<rparr>"
  let ?d3 = "?d2\<lparr>activityLogs := activityLogs ?d2 @ [(respondLog env user request True)\<lparr>log_id := newLogId env\<rparr>]\<rparr>"
  have u: "updateDoc None request_id requestId (applySwapRequestPatch ?p) (swapRequests d) = Inr ?docs"
    using stored by (simp add: updateDoc_def)
  have h: "handleSwapResponse env user swapReqs requestId True d = (Some (respondToast True), ?d3)"
    using found nosnap f2 f3 u
    by (simp add: handleSwapResponse_def updateSwapRequest_def addActivityLog_def)
  from updateDoc_find [OF u] obtain old where
    "find (\<lambda>x. request_id x = requestId) ?docs = Some (applySwapRequestPatch ?p old)"
    by auto
  then have "find (\<lambda>x. request_id x = requestId) (swapRequests ?d3) = Some (applySwapRequestPatch ?p old)"
    and "status (applySwapRequestPatch ?p old) = Accepted"
    by (simp_all add: applySwapRequestPatch_def noSwapRequestPatch_def orElse_def)
  with h show ?thesis
    by (intro exI [of _ ?d3] exI [of _ "applySwapRequestPatch ?p old"]) (simp add: respondLog_def)
qed

theorem accept_without_snapshot_skips_transfer_witness:
  "find (\<lambda>r. request_id r = ''r1'') [exRequest\<lparr>shift := None\<rparr>] = Some (exRequest\<lparr>shift := None\<rparr>) \<and>
   status (exRequest\<lparr>shift := None\<rparr>) = Pending \<and> shift (exRequest\<lparr>shift := None\<rparr>) = None \<and>
   ''r1'' \<in> set (map request_id (swapRequests exDb)) \<and>
   fst (handleSwapResponse exEnv exSarah [exRequest\<lparr>shift := None\<rparr>] ''r1'' True exDb) = Some (respondToast True) \<and>
   map employeeId (shifts (snd (handleSwapResponse exEnv exSarah [exRequest\<lparr>shift := None\<rparr>] ''r1'' True exDb))) = [''john''] \<and>
   map status (swapRequests (snd (handleSwapResponse exEnv exSarah [exRequest\<lparr>shift := None\<rparr>] ''r1'' True exDb))) = [Accepted] \<and>
   map log_type (activityLogs (snd (handleSwapResponse exEnv exSarah [exRequest\<lparr>shift := None\<rparr>] ''r1'' True exDb))) = [swap_accepted]"
proof -
  let ?r = "exRequest\<lparr>shift := None\<rparr>"
  have f: "find (\<lambda>r. request_id r = ''r1'') [?r] = Some ?r" by (simp add: exRequest_def)
  have p: "status ?r = Pending" and s: "shift ?r = None" by (simp_all add: exRequest_def)
  have m: "''r1'' \<in> set (map request_id (swapRequests exDb))" by (simp add: ex_defs)
  have e: "updateSwapRequestFault exEnv = None" "addActivityLogFault exEnv = None"
    by (simp_all add: exEnv_def)
  from accept_without_snapshot_skips_transfer [OF f p s m e, of exSarah] obtain d' r' where
    h: "handleSwapResponse exEnv exSarah [?r] ''r1'' True exDb = (Some (respondToast True), d')"
    and sh: "shifts d' = shifts exDb"
    and fr: "find (\<lambda>x. request_id x = ''r1'') (swapRequests d') = Some r'" "status r' = Accepted"
    and lg: "activityLogs d' = activityLogs exDb @ [(respondLog exEnv exSarah ?r True)\<lparr>log_id := newLogId exEnv\<rparr>]"
    by blast
  have sw: "map status (swapRequests (snd (handleSwapResponse exEnv exSarah [?r] ''r1'' True exDb))) = [Accepted]"
    by (simp add: ex_defs respond_defs)
  from h sh lg sw f p s m show ?thesis
    by (simp add: ex_defs respondLog_def)
qed

section \<open>Requesting a swap from an employee with the same short identifier\<close>

lemmas short_defs = shortId_def asciiToLowerCase_def firstToken_def lowerChar_def

text \<open>
  Claim C3, as amended.  The only exclusion is made by the modal, and it compares account
  ids: it offers exactly the listed employees whose account id differs from the current
  user's.  \<open>handleSwapConfirm\<close> does not compare the two short identifiers, whatever the
  runtime's \<open>toLowerCase\<close> does.  With a shift selected
  and the store serving both writes, it appends one pending request that carries the short
  identifiers derived from the two display names, whether they are equal or not, appends
  the \<open>swap_requested\<close> log entry and shows the success toast.
\<close>

theorem swap_confirm_does_not_compare_short_ids:
  "set (availableEmployees employees (user_id user)) =
     {e \<in> set employees. user_id e \<noteq> user_id user} \<and>
   (addSwapRequestFault env = None \<longrightarrow> confirmLogFault env = None \<longrightarrow>
    handleSwapConfirm toLowerCase env user (Some sel) targetEmployeeId targetEmployeeName d =
      (Some (confirmToast targetEmployeeName),
       d\<lparr>swapRequests := swapRequests d @
            [\<lparr>request_id = newRequestId env,
              fromEmployeeId = shortId toLowerCase (name user), fromEmployeeName = name user,
              toEmployeeId = shortId toLowerCase targetEmployeeName, toEmployeeName = targetEmployeeName,
              shiftId = shift_id sel, shift = Some sel, status = Pending,
              createdAt = createdAtNow env\<rparr>],
          activityLogs := activityLogs d @ [(confirmLog env user sel)\<lparr>log_id := confirmLogId env\<rparr>]\<rparr>))"
  by (simp add: availableEmployees_def handleSwapConfirm_def addSwapRequest_def
      addActivityLog_def confirmRequest_def shortId_def)

theorem swap_confirm_does_not_compare_short_ids_witness:
  "exSarah \<in> set (availableEmployees [exJohn, exSarah] (user_id exJohn)) \<and>
   user_id exSarah \<noteq> user_id exJohn \<and>
   addSwapRequestFault exConfirmEnv = None \<and> confirmLogFault exConfirmEnv = None \<and>
   map status (swapRequests (snd (handleSwapConfirm asciiToLowerCase exConfirmEnv exJohn (Some exShift)
      (user_id exSarah) (name exSarah) exEmptyDb))) = [Pending] \<and>
   map toEmployeeId (swapRequests (snd (handleSwapConfirm asciiToLowerCase exConfirmEnv exJohn (Some exShift)
      (user_id exSarah) (name exSarah) exEmptyDb))) = [''sarah'']"
proof -
  note th = swap_confirm_does_not_compare_short_ids [where employees = "[exJohn, exSarah]"
      and toLowerCase = asciiToLowerCase and user = exJohn and env = exConfirmEnv and sel = exShift
      and targetEmployeeId = "user_id exSarah" and targetEmployeeName = "name exSarah"
      and d = exEmptyDb]
  have m: "exSarah \<in> set (availableEmployees [exJohn, exSarah] (user_id exJohn))"
    by (simp add: availableEmployees_def exJohn_def exSarah_def)
  with th have n: "user_id exSarah \<noteq> user_id exJohn" by blast
  have f: "addSwapRequestFault exConfirmEnv = None" "confirmLogFault exConfirmEnv = None"
    by (simp_all add: exConfirmEnv_def)
  with th have h: "handleSwapConfirm asciiToLowerCase exConfirmEnv exJohn (Some exShift) (user_id exSarah) (name exSarah) exEmptyDb =
      (Some (confirmToast (name exSarah)),
       exEmptyDb\<lparr>swapRequests := swapRequests exEmptyDb @
            [\<lparr>request_id = newRequestId exConfirmEnv,
              fromEmployeeId = shortId asciiToLowerCase (name exJohn), fromEmployeeName = name exJohn,
              toEmployeeId = shortId asciiToLowerCase (name exSarah), toEmployeeName = name exSarah,
              shiftId = shift_id exShift, shift = Some exShift, status = Pending,
              createdAt = createdAtNow exConfirmEnv\<rparr>],
          activityLogs := activityLogs exEmptyDb @ [(confirmLog exConfirmEnv exJohn exShift)\<lparr>log_id := confirmLogId exConfirmEnv\<rparr>]\<rparr>)"
    by blast
  have s: "shortId asciiToLowerCase (name exSarah) = ''sarah''" by (simp add: short_defs exSarah_def)
  show ?thesis using m n f unfolding h by (simp add: s exEmptyDb_def)
qed

text \<open>
  The claim as stated fails for John Smith and John Doe: the modal offers John Doe, both
  short identifiers are \<open>john\<close>, the request is persisted and the success toast is shown.
\<close>

theorem swap_confirm_same_short_id_counterexample:
  "exJohnDoe \<in> set (availableEmployees [exJohn, exJohnDoe] (user_id exJohn)) \<and>
   shortId asciiToLowerCase (name exJohn) = shortId asciiToLowerCase (name exJohnDoe) \<and>
   fst (handleSwapConfirm asciiToLowerCase exConfirmEnv exJohn (Some exShift) (user_id exJohnDoe) (name exJohnDoe) exEmptyDb)
     = Some (confirmToast ''John Doe'') \<and>
   map fromEmployeeId (swapRequests (snd (handleSwapConfirm asciiToLowerCase exConfirmEnv exJohn (Some exShift)
      (user_id exJohnDoe) (name exJohnDoe) exEmptyDb))) = [''john''] \<and>
   map toEmployeeId (swapRequests (snd (handleSwapConfirm asciiToLowerCase exConfirmEnv exJohn (Some exShift)
      (user_id exJohnDoe) (name exJohnDoe) exEmptyDb))) = [''john'']"
  by (simp add: availableEmployees_def handleSwapConfirm_def addSwapRequest_def
      addActivityLog_def confirmRequest_def short_defs exJohn_def exJohnDoe_def
      exConfirmEnv_def exEmptyDb_def exShift_def)

section \<open>The client-side sort of getShiftsByEmployee\<close>

lemma insertWith_insort_key:
  assumes "\<forall>y \<in> set ys. (cmp x y \<le> 0) = (f x \<le> f y)"
  shows "insertWith cmp x ys = insort_key f x ys"
  using assms by (induction ys) auto

lemma sortWith_sort_key:
  assumes "\<forall>x \<in> set xs. \<forall>y \<in> set xs. (cmp x y \<le> 0) = (f x \<le> f y)"
  shows "sortWith cmp xs = sort_key f xs"
  using assms
proof (induction xs)
  case Nil
  then show ?case by (simp add: sortWith_def)
next
  case (Cons x xs)
  then have ih: "sortWith cmp xs = sort_key f xs" by simp
  have "insertWith cmp x (sort_key f xs) = insort_key f x (sort_key f xs)"
    using Cons.prems by (intro insertWith_insort_key) simp
  with ih show ?case by (simp add: sortWith_def)
qed

lemma sorted_pair_insort_key:
  assumes "sorted (map (\<lambda>x. (f x, g x)) ys)" and "\<forall>y \<in> set ys. g x \<le> g y"
  shows "sorted (map (\<lambda>x. (f x, g x)) (insort_key f x ys))"
  using assms
proof (induction ys)
  case Nil
  then show ?case by simp
next
  case (Cons y ys)
  let ?h = "\<lambda>x. (f x, g x)"
  from Cons.prems(1) have tl: "sorted (map ?h ys)" and hd: "\<forall>z \<in> set ys. ?h y \<le> ?h z"
    by simp_all
  show ?case
  proof (cases "f x \<le> f y")
    case True
    then have xy: "?h x \<le> ?h y" using Cons.prems(2) by (auto simp: less_eq_prod_def)
    have "\<forall>z \<in> set ys. ?h x \<le> ?h z"
    proof
      fix z assume "z \<in> set ys"
      with hd have "?h y \<le> ?h z" by blast
      with xy show "?h x \<le> ?h z" by (rule order_trans)
    qed
    with xy tl hd True show ?thesis by simp
  next
    case False
    then have yx: "?h y \<le> ?h x" by (auto simp: less_eq_prod_def)
    have "sorted (map ?h (insort_key f x ys))"
      using Cons.IH tl Cons.prems(2) by simp
    with yx hd False show ?thesis by (simp add: set_insort_key)
  qed
qed

lemma sorted_pair_sort_key:
  assumes "sorted (map g xs)"
  shows "sorted (map (\<lambda>x. (f x, g x)) (sort_key f xs))"
  using assms
proof (induction xs)
  case Nil
  then show ?case by simp
next
  case (Cons x xs)
  then have "sorted (map (\<lambda>x. (f x, g x)) (sort_key f xs))"
    and "\<forall>y \<in> set (sort_key f xs). g x \<le> g y"
    by auto
  then show ?case by (simp add: sorted_pair_insort_key)
qed

lemma stable_sort_twice:
  assumes "distinct (map g xs)"
  shows "sort_key f (sort_key g xs) = sort_key (\<lambda>x. (f x, g x)) xs"
proof -
  let ?h = "\<lambda>x. (f x, g x)"
  let ?A = "sort_key f (sort_key g xs)"
  let ?B = "sort_key ?h xs"
  have "inj_on g (set xs)" using assms by (simp add: distinct_map)
  then have inj: "inj_on ?h (set xs)" by (simp add: inj_on_def)
  have dx: "distinct xs" using assms by (simp add: distinct_map)
  have sA: "sorted (map ?h ?A)" by (rule sorted_pair_sort_key) simp
  have sB: "sorted (map ?h ?B)" by simp
  have dA: "distinct (map ?h ?A)" using inj dx by (simp add: distinct_map)
  have dB: "distinct (map ?h ?B)" using inj dx by (simp add: distinct_map)
  have "set (map ?h ?A) = set (map ?h ?B)" by simp
  with sA dA sB dB have "map ?h ?A = map ?h ?B" by (rule sorted_distinct_set_unique)
  moreover have "inj_on ?h (set ?A \<union> set ?B)" using inj by simp
  ultimately show ?thesis by (simp add: inj_on_map_eq_map)
qed


lemma filter_same_key:
  assumes "distinct (map f xs)" and "x \<in> set xs"
  shows "filter (\<lambda>y. f y = f x) xs = [x]"
  using assms
proof (induction xs)
  case Nil
  then show ?case by simp
next
  case (Cons a xs)
  show ?case
  proof (cases "a = x")
    case True
    with Cons.prems(1) have "f x \<notin> f ` set xs" by simp
    then have "\<forall>y \<in> set xs. f y \<noteq> f x" by (metis imageI)
    then have "filter (\<lambda>y. f y = f x) xs = []" by (simp add: filter_empty_conv)
    with True show ?thesis by simp
  next
    case False
    with Cons.prems have "x \<in> set xs" and "f a \<noteq> f x" by auto
    with Cons show ?thesis by simp
  qed
qed

lemma fallback_query_eq:
  assumes wf: "distinct (map shift_id docs)"
    and lc: "\<forall>a \<in> set docs. \<forall>b \<in> set docs. employeeId a = e \<longrightarrow> employeeId b = e \<longrightarrow>
               (localeCompare (date a) (date b) \<le> 0) = (date a \<le> date b)"
  shows "sortWith (\<lambda>a b. localeCompare (date a) (date b)) (queryWhereEmployee docs e) =
         queryWhereEmployeeOrderByDate docs e"
proof -
  let ?F = "filter (\<lambda>s. employeeId s = e) docs"
  have "sortWith (\<lambda>a b. localeCompare (date a) (date b)) (sort_key shift_id ?F) =
        sort_key date (sort_key shift_id ?F)"
    using lc by (intro sortWith_sort_key) simp
  also have "\<dots> = sort_key (\<lambda>s. (date s, shift_id s)) ?F"
    using wf by (intro stable_sort_twice) (rule distinct_map_filter)
  finally show ?thesis
    by (simp add: queryWhereEmployee_def queryWhereEmployeeOrderByDate_def)
qed

lemmas query_defs = getShiftsByEmployee_def queryWhereEmployeeOrderByDate_def
  queryWhereEmployee_def sortWith_def byteCompare_def exShifts3_def exQueryDb_def exShift_def
  addShift_def less_eq_prod_def less_eq_char_def less_char_def

text \<open>
  Claim C4.  Let the store hold shifts with pairwise different document ids, and let
  \<open>localeCompare\<close> order the dates of the owner's shifts as the store's index does.  Then
  the path taken after a \<open>failed-precondition\<close> error of the ordered query returns the very
  list that the ordered query returns.  That list is in ascending order of date, holds
  exactly the stored shifts of the owner, and holds each of them once; in particular a
  shift that \<open>addShift\<close> has just created for the owner is in it once, on either path.
\<close>

theorem fallback_path_equals_indexed_path:
  assumes wf: "distinct (map shift_id (shifts d))"
    and lc: "\<forall>a \<in> set (shifts d). \<forall>b \<in> set (shifts d). employeeId a = e \<longrightarrow> employeeId b = e \<longrightarrow>
               (localeCompare (date a) (date b) \<le> 0) = (date a \<le> date b)"
  shows "\<exists>L.
     getShiftsByEmployee localeCompare
       \<lparr>orderedQueryFault = None, fallbackQueryFault = ff\<rparr> d e = Inr L \<and>
     getShiftsByEmployee localeCompare
       \<lparr>orderedQueryFault = Some FailedPrecondition, fallbackQueryFault = None\<rparr> d e = Inr L \<and>
     sorted (map date L) \<and>
     set L = {s \<in> set (shifts d). employeeId s = e} \<and>
     (\<forall>s \<in> set (shifts d). employeeId s = e \<longrightarrow>
        filter (\<lambda>x. shift_id x = shift_id s) L = [s]) \<and>
     (\<forall>d0 newId s k. addShift None newId s d0 = Inr (k, d) \<longrightarrow> employeeId s = e \<longrightarrow>
        filter (\<lambda>x. shift_id x = k) L = [s\<lparr>shift_id := k\<rparr>])"
proof -
  let ?L = "queryWhereEmployeeOrderByDate (shifts d) e"
  let ?F = "filter (\<lambda>s. employeeId s = e) (shifts d)"
  have L: "?L = sort_key (\<lambda>s. (date s, shift_id s)) ?F"
    by (simp add: queryWhereEmployeeOrderByDate_def)
  have p1: "getShiftsByEmployee localeCompare
       \<lparr>orderedQueryFault = None, fallbackQueryFault = ff\<rparr> d e = Inr ?L"
    by (simp add: getShiftsByEmployee_def)
  have p2: "getShiftsByEmployee localeCompare
       \<lparr>orderedQueryFault = Some FailedPrecondition, fallbackQueryFault = None\<rparr> d e = Inr ?L"
    using fallback_query_eq [OF wf lc] by (simp add: getShiftsByEmployee_def)
  have "?L = sort_key date (sort_key shift_id ?F)"
    unfolding L using wf by (intro stable_sort_twice [symmetric]) (rule distinct_map_filter)
  then have p3: "sorted (map date ?L)" by simp
  have p4: "set ?L = {s \<in> set (shifts d). employeeId s = e}" unfolding L by auto
  have dL: "distinct (map shift_id ?L)"
    unfolding L using wf by (simp add: distinct_map distinct_map_filter inj_on_def) 
  have p5: "\<forall>s \<in> set (shifts d). employeeId s = e \<longrightarrow>
        filter (\<lambda>x. shift_id x = shift_id s) ?L = [s]"
    using filter_same_key [OF dL] p4 by blast
  have p6: "\<forall>d0 newId s k. addShift None newId s d0 = Inr (k, d) \<longrightarrow> employeeId s = e \<longrightarrow>
        filter (\<lambda>x. shift_id x = k) ?L = [s\<lparr>shift_id := k\<rparr>]"
  proof (intro allI impI)
    fix d0 newId s k
    assume a: "addShift None newId s d0 = Inr (k, d)" and o: "employeeId s = e"
    let ?s = "s\<lparr>shift_id := k\<rparr>"
    from a have "?s \<in> set (shifts d)" by (auto simp: addShift_def)
    moreover have "employeeId ?s = e" using o by simp
    ultimately have "filter (\<lambda>x. shift_id x = shift_id ?s) ?L = [?s]" using p5 by blast
    then show "filter (\<lambda>x. shift_id x = k) ?L = [?s]" by simp
  qed
  from p1 p2 p3 p4 p5 p6 show ?thesis by blast
qed

theorem fallback_path_equals_indexed_path_witness:
  "distinct (map shift_id (shifts (exQueryDb\<lparr>shifts := exShifts3 @ [exShift\<lparr>shift_id := ''s0'', date := ''2024-11-28''\<rparr>]\<rparr>))) \<and>
   addShift None ''s0'' (exShift\<lparr>date := ''2024-11-28''\<rparr>) exQueryDb =
     Inr (''s0'', exQueryDb\<lparr>shifts := exShifts3 @ [exShift\<lparr>shift_id := ''s0'', date := ''2024-11-28''\<rparr>]\<rparr>) \<and>
   getShiftsByEmployee byteCompare \<lparr>orderedQueryFault = Some FailedPrecondition, fallbackQueryFault = None\<rparr>
     (exQueryDb\<lparr>shifts := exShifts3 @ [exShift\<lparr>shift_id := ''s0'', date := ''2024-11-28''\<rparr>]\<rparr>) ''john'' =
   getShiftsByEmployee byteCompare \<lparr>orderedQueryFault = None, fallbackQueryFault = None\<rparr>
     (exQueryDb\<lparr>shifts := exShifts3 @ [exShift\<lparr>shift_id := ''s0'', date := ''2024-11-28''\<rparr>]\<rparr>) ''john'' \<and>
   map_sum (\<lambda>e. e) (map shift_id)
     (getShiftsByEmployee byteCompare \<lparr>orderedQueryFault = Some FailedPrecondition, fallbackQueryFault = None\<rparr>
       (exQueryDb\<lparr>shifts := exShifts3 @ [exShift\<lparr>shift_id := ''s0'', date := ''2024-11-28''\<rparr>]\<rparr>) ''john'') =
     Inr [''s1'', ''s2'', ''s0'', ''s3'']"
proof -
  let ?d = "exQueryDb\<lparr>shifts := exShifts3 @ [exShift\<lparr>shift_id := ''s0'', date := ''2024-11-28''\<rparr>]\<rparr>"
  have wf: "distinct (map shift_id (shifts ?d))"
    by (simp add: exShifts3_def exShift_def)
  have lc: "\<forall>a \<in> set (shifts ?d). \<forall>b \<in> set (shifts ?d). employeeId a = ''john'' \<longrightarrow>
      employeeId b = ''john'' \<longrightarrow> (byteCompare (date a) (date b) \<le> 0) = (date a \<le> date b)"
    by (auto simp: byteCompare_def)
  have a: "addShift None ''s0'' (exShift\<lparr>date := ''2024-11-28''\<rparr>) exQueryDb = Inr (''s0'', ?d)"
    by (simp add: addShift_def exQueryDb_def)
  from fallback_path_equals_indexed_path [OF wf lc, of None] obtain L where
    1: "getShiftsByEmployee byteCompare \<lparr>orderedQueryFault = None, fallbackQueryFault = None\<rparr> ?d ''john'' = Inr L"
    and 2: "getShiftsByEmployee byteCompare \<lparr>orderedQueryFault = Some FailedPrecondition, fallbackQueryFault = None\<rparr> ?d ''john'' = Inr L"
    by blast
  have 3: "map_sum (\<lambda>e. e) (map shift_id)
     (getShiftsByEmployee byteCompare \<lparr>orderedQueryFault = None, fallbackQueryFault = None\<rparr> ?d ''john'') =
     Inr [''s1'', ''s2'', ''s0'', ''s3'']"
    by (simp add: query_defs)
  from wf a 1 2 3 show ?thesis by simp
qed

section \<open>Generated schedules\<close>

lemma mset_shuffleLoop:
  assumes "\<forall>k n. randomIndex k (Suc n) \<le> n" and "i < length arr"
  shows "mset (shuffleLoop randomIndex k i arr) = mset arr"
  using assms(2)
proof (induction i arbitrary: k arr)
  case 0
  then show ?case by simp
next
  case (Suc i)
  let ?j = "randomIndex k (Suc i + 1)"
  let ?arr = "arr[Suc i := arr ! ?j, ?j := arr ! Suc i]"
  have "?j \<le> Suc i" using assms(1) by simp
  with Suc.prems have jl: "?j < length arr" by simp
  have "mset ?arr = mset arr" using Suc.prems jl by (simp add: mset_swap)
  moreover have "i < length ?arr" using Suc.prems by simp
  ultimately show ?case using Suc.IH [of ?arr "Suc k"] by (simp add: Let_def)
qed

lemma mset_shuffleArray:
  assumes "\<forall>k n. randomIndex k (Suc n) \<le> n"
  shows "mset (shuffleArray randomIndex k array) = mset array"
proof (cases array)
  case Nil
  then show ?thesis by (simp add: shuffleArray_def)
next
  case (Cons a as)
  then show ?thesis using mset_shuffleLoop [OF assms, of "length array - 1" array k]
    by (simp add: shuffleArray_def)
qed

lemma distinct_entry_ids: "distinct (map entry_id EMPLOYEES)"
  by (simp add: EMPLOYEES_def)

lemma shuffled_EMPLOYEES:
  assumes "\<forall>k n. randomIndex k (Suc n) \<le> n"
  shows "distinct (map entry_id (shuffleArray randomIndex k EMPLOYEES))"
    and "length (shuffleArray randomIndex k EMPLOYEES) = 8"
    and "set (shuffleArray randomIndex k EMPLOYEES) = set EMPLOYEES"
proof -
  let ?s = "shuffleArray randomIndex k EMPLOYEES"
  have m: "mset ?s = mset EMPLOYEES" by (rule mset_shuffleArray [OF assms])
  then have "mset (map entry_id ?s) = mset (map entry_id EMPLOYEES)" by simp
  then show "distinct (map entry_id ?s)"
    using distinct_entry_ids by (metis mset_eq_imp_distinct_iff)
  from m have "length ?s = length EMPLOYEES" by (rule mset_eq_length)
  then show "length ?s = 8" by (simp add: EMPLOYEES_def)
  from m show "set ?s = set EMPLOYEES" by (rule mset_eq_setD)
qed

lemma day_assignment_ids:
  assumes "\<forall>k n. randomIndex k (Suc n) \<le> n"
  shows "map asg_employeeId (generateDayAssignments randomIndex k) =
     map entry_id (take 5 (shuffleArray randomIndex k EMPLOYEES))"
proof -
  let ?s = "shuffleArray randomIndex k EMPLOYEES"
  have "length ?s = 8" by (rule shuffled_EMPLOYEES(2) [OF assms])
  then obtain a b c d e f g h where "?s = [a, b, c, d, e, f, g, h]"
    by (auto simp: eval_nat_numeral length_Suc_conv)
  then show ?thesis
    by (simp add: generateDayAssignments_def assign_def Let_def upt_rec [of 0] upt_rec [of 1]
        upt_rec [of 2] upt_rec [of 3] eval_nat_numeral)
qed

lemma day_assignments:
  assumes "\<forall>k n. randomIndex k (Suc n) \<le> n"
  shows "distinct (map asg_employeeId (generateDayAssignments randomIndex k))"
    and "length (generateDayAssignments randomIndex k) = 5"
    and "set (map asg_employeeId (generateDayAssignments randomIndex k)) \<subseteq> entry_id ` set EMPLOYEES"
proof -
  let ?s = "shuffleArray randomIndex k EMPLOYEES"
  have "distinct (take 5 (map entry_id ?s))"
    using shuffled_EMPLOYEES(1) [OF assms] by (rule distinct_take)
  then show "distinct (map asg_employeeId (generateDayAssignments randomIndex k))"
    by (simp add: day_assignment_ids [OF assms] take_map)
  show "length (generateDayAssignments randomIndex k) = 5"
    by (simp add: generateDayAssignments_def Let_def)
  have "set (take 5 ?s) \<subseteq> set EMPLOYEES"
    using shuffled_EMPLOYEES(3) [OF assms, of k] set_take_subset [of 5 ?s] by simp
  then show "set (map asg_employeeId (generateDayAssignments randomIndex k)) \<subseteq> entry_id ` set EMPLOYEES"
    unfolding day_assignment_ids [OF assms] by auto
qed

lemma berlin_steps:
  "setDateNextDay exBerlin 1711756800000 = 1711843200000"
  "setDateNextDay exBerlin 1711843200000 = 1711926000000"
  "setDateNextDay exBerlin 1711926000000 = 1712012400000"
  "toISODateString exBerlin 1711756800000 = ''2024-03-30''"
  "toISODateString exBerlin 1711843200000 = ''2024-03-31''"
  "toISODateString exBerlin 1711926000000 = ''2024-03-31''"
  by (simp_all add: setDateNextDay_def toISODateString_def exBerlin_def msPerDay_def Let_def)

lemma berlin_schedule:
  "generateBalancedShifts randomIndex exBerlin ''2024-03-30'' ''2024-04-01'' =
     Some (map (shiftOfAssignment ''2024-03-30'') (generateDayAssignments randomIndex 0) @
           map (shiftOfAssignment ''2024-03-31'') (generateDayAssignments randomIndex 7) @
           map (shiftOfAssignment ''2024-03-31'') (generateDayAssignments randomIndex 14))"
proof -
  have p: "parseDate exBerlin ''2024-03-30'' = Some 1711756800000"
    "parseDate exBerlin ''2024-04-01'' = Some 1711929600000"
    by (simp_all add: exBerlin_def)
  have n: "length EMPLOYEES - Suc 0 = 7" by (simp add: EMPLOYEES_def)
  show ?thesis
    unfolding generateBalancedShifts_def p
    by (simp add: dayLoop.simps [of _ _ _ 1711756800000] dayLoop.simps [of _ _ _ 1711843200000]
        dayLoop.simps [of _ _ _ 1711926000000] dayLoop.simps [of _ _ _ 1712012400000]
        berlin_steps n)
qed

text \<open>
  Claim C5.  The code does not keep the claim.  Every iteration gives its five shifts to
  five different employees, but two iterations can print the same date.  In the time zone
  Europe/Berlin, for the range 2024-03-30 to 2024-04-01 and whatever the draws are, the
  loop visits midnight UTC of 30 March, midnight UTC of 31 March and 23:00 UTC of 31 March:
  it prints 2024-03-31 twice and 2024-04-01 never.  The schedule has ten shifts on
  2024-03-31 for eight employees, so some employee has two shifts on that date.
\<close>

theorem generator_repeats_a_date_across_dst:
  assumes "\<forall>k n. randomIndex k (Suc n) \<le> n"
  shows "\<exists>generated.
     generateBalancedShifts randomIndex exBerlin ''2024-03-30'' ''2024-04-01'' = Some generated \<and>
     map date generated = replicate 5 ''2024-03-30'' @ replicate 10 ''2024-03-31'' \<and>
     \<not> distinct (map (\<lambda>s. (employeeId s, date s)) generated) \<and>
     distinct (map asg_employeeId (generateDayAssignments randomIndex k))"
proof -
  let ?A0 = "generateDayAssignments randomIndex 0"
  let ?A1 = "generateDayAssignments randomIndex 7"
  let ?A2 = "generateDayAssignments randomIndex 14"
  let ?L = "map (shiftOfAssignment ''2024-03-30'') ?A0 @
            map (shiftOfAssignment ''2024-03-31'') ?A1 @
            map (shiftOfAssignment ''2024-03-31'') ?A2"
  let ?key = "\<lambda>s. (employeeId s, date s)"
  have len: "length ?A0 = 5" "length ?A1 = 5" "length ?A2 = 5"
    by (rule day_assignments(2) [OF assms])+
  have d: "map date (map (shiftOfAssignment ds) A) = replicate (length A) ds" for ds A
    by (induction A) (simp_all add: shiftOfAssignment_def)
  have dates: "map date ?L = replicate 5 ''2024-03-30'' @ replicate 10 ''2024-03-31''"
    by (simp add: d len del: map_map) (simp add: replicate_add [symmetric])
  have ko: "?key \<circ> shiftOfAssignment ds = (\<lambda>a. (asg_employeeId a, ds))" for ds
    by (rule ext) (simp add: shiftOfAssignment_def)
  define B where "B = ?A1 @ ?A2"
  have lenB: "length B = 10" using len by (simp add: B_def)
  have idsB: "set (map asg_employeeId B) \<subseteq> entry_id ` set EMPLOYEES"
    using day_assignments(3) [OF assms, of 7] day_assignments(3) [OF assms, of 14]
    by (simp add: B_def)
  have eq: "map ?key ?L =
      map (\<lambda>a. (asg_employeeId a, ''2024-03-30'')) ?A0 @
      map (\<lambda>a. (asg_employeeId a, ''2024-03-31'')) B"
    unfolding B_def by (simp only: map_append map_map ko)
  have "\<not> distinct (map ?key ?L)"
  proof
    assume "distinct (map ?key ?L)"
    then have "distinct (map (\<lambda>a. (asg_employeeId a, ''2024-03-31'')) B)"
      unfolding eq by simp
    then have "distinct B" and "inj_on (\<lambda>a. (asg_employeeId a, ''2024-03-31'')) (set B)"
      by (simp_all add: distinct_map)
    then have dd: "distinct (map asg_employeeId B)"
      by (auto simp: distinct_map inj_on_def)
    have "card (set (map asg_employeeId B)) \<le> card (entry_id ` set EMPLOYEES)"
      using idsB by (intro card_mono) simp_all
    also have "\<dots> \<le> card (set EMPLOYEES)" by (rule card_image_le) simp
    also have "\<dots> \<le> length EMPLOYEES" by (rule card_length)
    also have "\<dots> = 8" by (simp add: EMPLOYEES_def)
    finally have "card (set (map asg_employeeId B)) \<le> 8" .
    moreover from dd have "card (set (map asg_employeeId B)) = length (map asg_employeeId B)"
      by (rule distinct_card)
    ultimately show False using lenB by simp
  qed
  with berlin_schedule [of randomIndex] dates day_assignments(1) [OF assms, of k]
  show ?thesis by blast
qed

theorem generator_repeats_a_date_across_dst_witness:
  "(\<forall>k n. exZeroDraws k (Suc n) \<le> n) \<and>
   map_option (map employeeId)
     (generateBalancedShifts exZeroDraws exBerlin ''2024-03-30'' ''2024-04-01'') =
     Some [''sarah'', ''emma'', ''mike'', ''john'', ''rachel'',
           ''sarah'', ''emma'', ''mike'', ''john'', ''rachel'',
           ''sarah'', ''emma'', ''mike'', ''john'', ''rachel''] \<and>
   map_option (map date)
     (generateBalancedShifts exZeroDraws exBerlin ''2024-03-30'' ''2024-04-01'') =
     Some (replicate 5 ''2024-03-30'' @ replicate 10 ''2024-03-31'')"
proof -
  have z: "\<forall>k n. exZeroDraws k (Suc n) \<le> n" by (simp add: exZeroDraws_def)
  from generator_repeats_a_date_across_dst [OF z] obtain generated where
    g: "generateBalancedShifts exZeroDraws exBerlin ''2024-03-30'' ''2024-04-01'' = Some generated"
    and dt: "map date generated = replicate 5 ''2024-03-30'' @ replicate 10 ''2024-03-31''"
    by blast
  have ids: "map_option (map employeeId)
     (generateBalancedShifts exZeroDraws exBerlin ''2024-03-30'' ''2024-04-01'') =
     Some [''sarah'', ''emma'', ''mike'', ''john'', ''rachel'',
           ''sarah'', ''emma'', ''mike'', ''john'', ''rachel'',
           ''sarah'', ''emma'', ''mike'', ''john'', ''rachel'']"
    by code_simp
  from z g dt ids show ?thesis by simp
qed

section \<open>The duplicate check\<close>

lemma dupeGroups_snoc: "dupeGroups (xs @ [x]) = pushDupe (dupeGroups xs) x"
  by (simp add: dupeGroups_def)

lemma dupeGroups_inv:
  "distinct (map fst (dupeGroups xs)) \<and>
   set (map fst (dupeGroups xs)) = dupeKey ` set xs \<and>
   (\<forall>(k, arr) \<in> set (dupeGroups xs). arr = filter (\<lambda>s. dupeKey s = k) xs)"
proof (induction xs rule: rev_induct)
  case Nil
  then show ?case by (simp add: dupeGroups_def)
next
  case (snoc x xs)
  let ?m = "dupeGroups xs"
  let ?key = "dupeKey x"
  let ?m1 = "if ?key \<in> set (map fst ?m) then ?m else ?m @ [(?key, [])]"
  let ?upd = "\<lambda>(k, arr). if k = ?key then (k, arr @ [x]) else (k, arr)"
  from snoc have d: "distinct (map fst ?m)" and k: "set (map fst ?m) = dupeKey ` set xs"
    and g: "\<forall>(k, arr) \<in> set ?m. arr = filter (\<lambda>s. dupeKey s = k) xs"
    by auto
  have fst_upd: "map fst (map ?upd m) = map fst m" for m :: "(string \<times> Shift list) list"
    by (induction m) (auto split: prod.splits)
  have d1: "distinct (map fst ?m1)" using d by auto
  have k1: "set (map fst ?m1) = dupeKey ` set (xs @ [x])" using k by auto
  have g1: "\<forall>(k, arr) \<in> set ?m1. arr = filter (\<lambda>s. dupeKey s = k) xs"
  proof (cases "?key \<in> set (map fst ?m)")
    case True
    with g show ?thesis by simp
  next
    case False
    with k have "?key \<notin> dupeKey ` set xs" by simp
    then have "\<forall>s \<in> set xs. dupeKey s \<noteq> ?key" by (metis imageI)
    then have "filter (\<lambda>s. dupeKey s = ?key) xs = []"
      by (simp add: filter_empty_conv)
    with g False show ?thesis by auto
  qed
  have eq: "dupeGroups (xs @ [x]) = map ?upd ?m1"
    by (simp add: dupeGroups_snoc pushDupe_def Let_def)
  have "\<forall>(k, arr) \<in> set (map ?upd ?m1). arr = filter (\<lambda>s. dupeKey s = k) (xs @ [x])"
    using g1 by (auto split: prod.splits if_splits)
  with d1 k1 show ?case unfolding eq by (simp only: fst_upd) 
qed

lemma two_in_filter:
  assumes "i < j" and "j < length xs" and "P (xs ! i)" and "P (xs ! j)"
  shows "length (filter P xs) > 1"
proof -
  have xs: "xs = take j xs @ xs ! j # drop (Suc j) xs"
    using assms(2) by (simp add: id_take_nth_drop)
  have "xs ! i \<in> set (take j xs)"
    using assms(1,2) by (auto simp: in_set_conv_nth intro!: exI [of _ i])
  with assms(3) have "filter P (take j xs) \<noteq> []" by (auto simp: filter_empty_conv)
  then have "length (filter P (take j xs)) \<ge> 1" by (cases "filter P (take j xs)") auto
  moreover have "length (filter P xs) =
      length (filter P (take j xs)) + length (filter P (xs ! j # drop (Suc j) xs))"
    by (subst xs) simp
  moreover have "length (filter P (xs ! j # drop (Suc j) xs)) \<ge> 1"
    using assms(4) by simp
  ultimately show ?thesis by linarith
qed

lemmas dupe_defs = dupesFound_def dupeGroups_def pushDupe_def dupeKey_def shiftTypeName_def
  duplicateCheck_def exShift_def

text \<open>
  Claim C6, as amended.  The check groups by date, type and owner.  For every two shifts
  at different positions of the fetched list that have the same owner, the same date and
  the same type, the check reports a group that holds both: the group of all shifts with
  their key, counted in the report, and the check sets \<open>hasIssues\<close>.
\<close>

theorem duplicate_scan_reports_same_date_type_owner:
  assumes "i < j" and "j < length shiftList"
    and "employeeId (shiftList ! i) = employeeId (shiftList ! j)"
    and "date (shiftList ! i) = date (shiftList ! j)"
    and "shift_type (shiftList ! i) = shift_type (shiftList ! j)"
  shows "\<exists>dupe \<in> set (dupesFound shiftList).
           shiftList ! i \<in> set dupe \<and> shiftList ! j \<in> set dupe \<and>
           dupe = filter (\<lambda>s. dupeKey s = dupeKey (shiftList ! i)) shiftList \<and>
           snd (duplicateCheck shiftList) \<and>
           DuplicateEntries (employeeName (hd dupe)) (date (hd dupe)) (length dupe)
             \<in> set (fst (duplicateCheck shiftList))"
proof -
  let ?k = "dupeKey (shiftList ! i)"
  let ?g = "filter (\<lambda>s. dupeKey s = ?k) shiftList"
  have kj: "dupeKey (shiftList ! j) = ?k" using assms(3-5) by (simp add: dupeKey_def)
  have ii: "i < length shiftList" using assms(1,2) by simp
  have "?k \<in> dupeKey ` set shiftList" using ii by simp
  with dupeGroups_inv [of shiftList] have "?k \<in> set (map fst (dupeGroups shiftList))" by simp
  then obtain arr where m: "(?k, arr) \<in> set (dupeGroups shiftList)" by auto
  with dupeGroups_inv [of shiftList] have arr: "arr = ?g" by auto
  have len: "length ?g > 1"
    using assms(1,2) kj by (intro two_in_filter [of i j]) simp_all
  from m arr have "?g \<in> set (map snd (dupeGroups shiftList))" by force
  with len have f: "?g \<in> set (dupesFound shiftList)" by (simp add: dupesFound_def)
  then have ne: "length (dupesFound shiftList) > 0" by (cases "dupesFound shiftList") auto
  have mi: "shiftList ! i \<in> set ?g" using ii by simp
  have mj: "shiftList ! j \<in> set ?g" using assms(2) kj by simp
  have c1: "snd (duplicateCheck shiftList)" using ne by (simp add: duplicateCheck_def Let_def)
  have c2: "DuplicateEntries (employeeName (hd ?g)) (date (hd ?g)) (length ?g)
      \<in> set (fst (duplicateCheck shiftList))"
    using ne f by (simp add: duplicateCheck_def Let_def)
  from f mi mj c1 c2 show ?thesis by blast
qed

theorem duplicate_scan_reports_same_date_type_owner_witness:
  "(0::nat) < 1 \<and> 1 < length [exShift, exShift\<lparr>shift_id := ''s7''\<rparr>] \<and>
   dupesFound [exShift, exShift\<lparr>shift_id := ''s7''\<rparr>] = [[exShift, exShift\<lparr>shift_id := ''s7''\<rparr>]] \<and>
   duplicateCheck [exShift, exShift\<lparr>shift_id := ''s7''\<rparr>] =
     ([DuplicateShiftsFound 1, DuplicateEntries ''John Smith'' ''2024-11-27'' 2], True) \<and>
   (\<exists>dupe \<in> set (dupesFound [exShift, exShift\<lparr>shift_id := ''s7''\<rparr>]).
      exShift \<in> set dupe \<and> exShift\<lparr>shift_id := ''s7''\<rparr> \<in> set dupe)"
proof -
  let ?l = "[exShift, exShift\<lparr>shift_id := ''s7''\<rparr>]"
  have h: "(0::nat) < 1" "1 < length ?l" "employeeId (?l ! 0) = employeeId (?l ! 1)"
    "date (?l ! 0) = date (?l ! 1)" "shift_type (?l ! 0) = shift_type (?l ! 1)"
    by simp_all
  from duplicate_scan_reports_same_date_type_owner [OF h]
  obtain dupe where "dupe \<in> set (dupesFound ?l)" and "?l ! 0 \<in> set dupe" and "?l ! 1 \<in> set dupe"
    by blast
  moreover have "?l ! 0 = exShift" and "?l ! 1 = exShift\<lparr>shift_id := ''s7''\<rparr>" by simp_all
  ultimately have e: "\<exists>dupe \<in> set (dupesFound ?l). exShift \<in> set dupe \<and> exShift\<lparr>shift_id := ''s7''\<rparr> \<in> set dupe"
    by metis
  have d: "dupesFound ?l = [?l]" by (simp add: dupe_defs)
  have c: "duplicateCheck ?l =
     ([DuplicateShiftsFound 1, DuplicateEntries ''John Smith'' ''2024-11-27'' 2], True)"
    unfolding duplicateCheck_def d by (simp add: exShift_def)
  from h(1,2) d c e show ?thesis by blast
qed

text \<open>
  The claim as stated fails: two shifts of john on 2024-11-27, one of type day and one of
  type afternoon, have different keys, and the check reports no duplicate.
\<close>

theorem duplicate_scan_ignores_type_counterexample:
  "shift_id exShift \<noteq> shift_id (exShift\<lparr>shift_id := ''s7'', shift_type := Afternoon\<rparr>) \<and>
   employeeId exShift = employeeId (exShift\<lparr>shift_id := ''s7'', shift_type := Afternoon\<rparr>) \<and>
   date exShift = date (exShift\<lparr>shift_id := ''s7'', shift_type := Afternoon\<rparr>) \<and>
   dupesFound [exShift, exShift\<lparr>shift_id := ''s7'', shift_type := Afternoon\<rparr>] = [] \<and>
   duplicateCheck [exShift, exShift\<lparr>shift_id := ''s7'', shift_type := Afternoon\<rparr>] =
     ([NoDuplicateShifts], False)"
  by (simp add: dupe_defs)

section \<open>The identifier analysis of the diagnostics page\<close>

lemma setOf_snoc: "setOf (xs @ [x]) = (if x \<in> set (setOf xs) then setOf xs else setOf xs @ [x])"
  by (simp add: setOf_def)


lemma distinct_setOf: "distinct (setOf xs)"
  by (induction xs rule: rev_induct) (auto simp: setOf_snoc, simp add: setOf_def)








section \<open>Enrichment of the delivered swap requests\<close>

lemma enrichRequest_resolves:
  "enrichRequest fault shiftDocs req =
     Inr (if shift req = None \<and> shiftId req \<noteq> [] \<and> fault = None
          then req\<lparr>shift := find (\<lambda>s. shift_id s = shiftId req) shiftDocs\<rparr>
          else req)"
  by (cases fault; cases "find (\<lambda>s. shift_id s = shiftId req) shiftDocs")
     (simp_all add: enrichRequest_def getDoc_def)

lemma promiseAll_resolved: "promiseAll (map (\<lambda>i. Inr (f i)) is) = Inr (map f is)"
  by (induction "is") simp_all

lemma onSwapRequestsSnapshot_eq:
  "onSwapRequestsSnapshot lookupFault d e =
     Some (map (\<lambda>i. if shift (swapRequestsFor d e ! i) = None \<and>
                       shiftId (swapRequestsFor d e ! i) \<noteq> [] \<and> lookupFault i = None
                    then (swapRequestsFor d e ! i)
                           \<lparr>shift := find (\<lambda>s. shift_id s = shiftId (swapRequestsFor d e ! i)) (shifts d)\<rparr>
                    else swapRequestsFor d e ! i)
             [0 ..< length (swapRequestsFor d e)])"
  unfolding onSwapRequestsSnapshot_def Let_def enrichRequest_resolves promiseAll_resolved
  by simp

lemma exInbox: "swapRequestsFor exInboxDb ''sarah'' =
    [exRequest\<lparr>request_id := ''r1'', shift := None\<rparr>,
     exRequest\<lparr>request_id := ''r2'', shift := None, shiftId := ''s9''\<rparr>,
     exRequest\<lparr>request_id := ''r3'', shift := None\<rparr>]"
  by (simp add: swapRequestsFor_def exInboxDb_def exRequest_def less_eq_char_def less_char_def)

lemma exDelivered: "onSwapRequestsSnapshot exLookupFault exInboxDb ''sarah'' =
    Some [exRequest\<lparr>request_id := ''r1'', shift := Some exShift\<rparr>,
          exRequest\<lparr>request_id := ''r2'', shift := None, shiftId := ''s9''\<rparr>,
          exRequest\<lparr>request_id := ''r3'', shift := None\<rparr>]"
  by (simp add: onSwapRequestsSnapshot_eq exInbox upt_rec [of 0] upt_rec [of 1] upt_rec [of 2]
      eval_nat_numeral exLookupFault_def)
     (simp add: exInboxDb_def exRequest_def exShift_def)

text \<open>
  Claim C8.  For every batch the callback is called, with one request for each request of
  the snapshot, in the same order and equal to it in every field but the shift.  A request
  that came with its snapshot is delivered as it is.  A request without snapshot carries
  the shift found under its \<open>shiftId\<close> when the lookup is served, and no shift when the
  lookup fails or finds no document; nothing is thrown in either case.  The callback's
  argument is the array of all results, so it is called after every lookup has ended.  A
  request without snapshot and with an empty \<open>shiftId\<close> is delivered without shift and
  without lookup.
\<close>

theorem subscription_enriches_before_delivery:
  "\<exists>batch. onSwapRequestsSnapshot lookupFault d e = Some batch \<and>
     length batch = length (swapRequestsFor d e) \<and>
     (\<forall>i < length batch.
        batch ! i = (swapRequestsFor d e ! i)\<lparr>shift := shift (batch ! i)\<rparr> \<and>
        (shift (swapRequestsFor d e ! i) \<noteq> None \<longrightarrow> batch ! i = swapRequestsFor d e ! i) \<and>
        (shift (swapRequestsFor d e ! i) = None \<longrightarrow> shiftId (swapRequestsFor d e ! i) \<noteq> [] \<longrightarrow>
           shift (batch ! i) =
             (case lookupFault i of
                Some err \<Rightarrow> None
              | None \<Rightarrow> find (\<lambda>s. shift_id s = shiftId (swapRequestsFor d e ! i)) (shifts d))) \<and>
        (shift (swapRequestsFor d e ! i) = None \<longrightarrow> shiftId (swapRequestsFor d e ! i) = [] \<longrightarrow>
           shift (batch ! i) = None))"
proof -
  let ?reqs = "swapRequestsFor d e"
  let ?batch = "map (\<lambda>i. if shift (?reqs ! i) = None \<and> shiftId (?reqs ! i) \<noteq> [] \<and> lookupFault i = None
                    then (?reqs ! i)\<lparr>shift := find (\<lambda>s. shift_id s = shiftId (?reqs ! i)) (shifts d)\<rparr>
                    else ?reqs ! i) [0 ..< length ?reqs]"
  have "\<forall>i < length ?batch.
        ?batch ! i = (?reqs ! i)\<lparr>shift := shift (?batch ! i)\<rparr> \<and>
        (shift (?reqs ! i) \<noteq> None \<longrightarrow> ?batch ! i = ?reqs ! i) \<and>
        (shift (?reqs ! i) = None \<longrightarrow> shiftId (?reqs ! i) \<noteq> [] \<longrightarrow>
           shift (?batch ! i) =
             (case lookupFault i of
                Some err \<Rightarrow> None
              | None \<Rightarrow> find (\<lambda>s. shift_id s = shiftId (?reqs ! i)) (shifts d))) \<and>
        (shift (?reqs ! i) = None \<longrightarrow> shiftId (?reqs ! i) = [] \<longrightarrow> shift (?batch ! i) = None)"
    by (auto split: option.splits)
  then show ?thesis
    by (intro exI [of _ ?batch]) (simp add: onSwapRequestsSnapshot_eq)
qed

theorem subscription_enriches_before_delivery_witness:
  "map request_id (swapRequestsFor exInboxDb ''sarah'') = [''r1'', ''r2'', ''r3''] \<and>
   map shift (swapRequestsFor exInboxDb ''sarah'') = [None, None, None] \<and>
   map_option (map shift) (onSwapRequestsSnapshot exLookupFault exInboxDb ''sarah'') =
     Some [Some exShift, None, None] \<and>
   map_option (map request_id) (onSwapRequestsSnapshot exLookupFault exInboxDb ''sarah'') =
     Some [''r1'', ''r2'', ''r3'']"
proof -
  let ?reqs = "swapRequestsFor exInboxDb ''sarah''"
  from subscription_enriches_before_delivery [of exLookupFault exInboxDb "''sarah''"]
  obtain batch where b: "onSwapRequestsSnapshot exLookupFault exInboxDb ''sarah'' = Some batch"
    and len: "length batch = length ?reqs"
    and snd: "1 < length batch \<longrightarrow> shift (?reqs ! 1) = None \<longrightarrow> shiftId (?reqs ! 1) \<noteq> [] \<longrightarrow>
           shift (batch ! 1) =
             (case exLookupFault 1 of
                Some err \<Rightarrow> None
              | None \<Rightarrow> find (\<lambda>s. shift_id s = shiftId (?reqs ! 1)) (shifts exInboxDb))"
    by blast
  from len have "1 < length batch" by (simp add: exInbox)
  with snd have missing: "shift (batch ! 1) = None"
    unfolding exInbox by (simp add: exLookupFault_def exInboxDb_def exShift_def)
  from b have "batch =
         [exRequest\<lparr>request_id := ''r1'', shift := Some exShift\<rparr>,
          exRequest\<lparr>request_id := ''r2'', shift := None, shiftId := ''s9''\<rparr>,
          exRequest\<lparr>request_id := ''r3'', shift := None\<rparr>]"
    by (simp add: exDelivered)
  with b missing show ?thesis by (simp add: exInbox)
qed
section \<open>Signup and login\<close>

lemma handleSignup_created:
  assumes "handleSignup toLowerCase env nm em pw (creds, d) = (AccountCreated, creds', d')"
  shows "users d' = users d @
           [\<lparr>user_id = newUserId env, email = em, name = nm, role = Employee, password = None\<rparr>] \<and>
         credEmployees creds' = credEmployees creds @
           [\<lparr>cred_email = em, cred_name = nm, cred_password = pw\<rparr>] \<and>
         credManager creds' = credManager creds \<and>
         shifts d' = shifts d \<and> swapRequests d' = swapRequests d \<and>
         activityLogs d' = activityLogs d \<and>
         (\<forall>u \<in> set (users d). toLowerCase (email u) \<noteq> toLowerCase em)"
proof -
  from assms have g: "getUsers (signupGetUsersFault env) d = Inr (sort_key user_id (users d))"
    by (auto simp: handleSignup_def getUsers_def split: option.splits sum.splits)
  from assms g have f: "find (\<lambda>u. toLowerCase (email u) = toLowerCase em) (sort_key user_id (users d)) = None"
    by (auto simp: handleSignup_def split: option.splits)
  then have n: "\<forall>u \<in> set (users d). toLowerCase (email u) \<noteq> toLowerCase em"
    by (auto simp: find_None_iff)
  from assms g f show ?thesis using n
    by (auto simp: handleSignup_def addUser_def split: option.splits sum.splits)
qed

lemma handleSignup_stores_no_password:
  "\<forall>u \<in> set (users (snd (snd (handleSignup toLowerCase env nm em pw (creds, d))))).
      u \<in> set (users d) \<or> password u = None"
  by (auto simp: handleSignup_def addUser_def getUsers_def split: option.splits sum.splits)

lemma find_role_neq:
  assumes "role u = Employee"
  shows "find (\<lambda>x. role x = Manager) userList \<noteq> Some u"
  using assms by (auto dest: find_Some_iff [THEN iffD1])

lemma find_password_neq:
  assumes "password u = None"
  shows "find (\<lambda>x. email x = em \<and> password x = Some pw) userList \<noteq> Some u"
  using assms by (auto dest: find_Some_iff [THEN iffD1])

lemma find_email_None:
  assumes "find (\<lambda>x. email x = em) userList = None"
  shows "find (\<lambda>x. email x = em \<and> password x = Some pw) userList = None"
  using assms by (auto simp: find_None_iff)

lemma login_without_password:
  assumes "password u = None" and "role u = Employee"
  shows "handleLogin creds userList em pw = NavigateToDashboard u \<longleftrightarrow>
     \<not> (em = cred_email (credManager creds) \<and> pw = cred_password (credManager creds) \<and>
         find (\<lambda>x. role x = Manager) userList \<noteq> None) \<and>
     (\<exists>c \<in> set (credEmployees creds). cred_email c = em \<and> cred_password c = pw) \<and>
     find (\<lambda>x. email x = em) userList = Some u"
proof -
  let ?m = "if em = cred_email (credManager creds) \<and> pw = cred_password (credManager creds)
            then find (\<lambda>u. role u = Manager) userList else None"
  let ?c = "find (\<lambda>cred. cred_email cred = em \<and> cred_password cred = pw) (credEmployees creds)"
  let ?e = "find (\<lambda>x. email x = em) userList"
  let ?p = "find (\<lambda>x. email x = em \<and> password x = Some pw) userList"
  have c: "?c \<noteq> None \<longleftrightarrow> (\<exists>c \<in> set (credEmployees creds). cred_email c = em \<and> cred_password c = pw)"
    by (auto simp: find_None_iff)
  have m: "?m = None \<longleftrightarrow>
      \<not> (em = cred_email (credManager creds) \<and> pw = cred_password (credManager creds) \<and>
         find (\<lambda>x. role x = Manager) userList \<noteq> None)"
    by auto
  have mu: "?m \<noteq> Some u" using find_role_neq [OF assms(2)] by simp
  have pu: "?p \<noteq> Some u" by (rule find_password_neq [OF assms(1)])
  have l: "handleLogin creds userList em pw = NavigateToDashboard u \<longleftrightarrow>
      ?m = None \<and> ?c \<noteq> None \<and> ?e = Some u"
  proof (cases ?m)
    case (Some a)
    with mu show ?thesis by (auto simp: handleLogin_def)
  next
    case None
    note mn = None
    show ?thesis
    proof (cases ?c)
      case None
      with mn pu show ?thesis by (auto simp: handleLogin_def split: option.splits)
    next
      case (Some cr)
      note cs = Some
      show ?thesis
      proof (cases ?e)
        case None
        from find_email_None [OF None] have "?p = None" .
        with mn cs None show ?thesis by (simp add: handleLogin_def)
      next
        case (Some e)
        with mn cs show ?thesis by (simp add: handleLogin_def)
      qed
    qed
  qed
  show ?thesis unfolding l m c ..
qed

lemma builtin_credentials:
  assumes "c \<in> set (credEmployees testCredentials)"
  shows "cred_password c = ''password123'' \<and>
     cred_email c \<in> {''john@schedulo.com'', ''sarah@schedulo.com'', ''mike@schedulo.com'',
       ''emma@schedulo.com'', ''alex@schedulo.com'', ''jessica@schedulo.com'',
       ''david@schedulo.com'', ''rachel@schedulo.com''}"
  using assms unfolding testCredentials_def by auto

lemmas signup_defs = handleSignup_def getUsers_def addUser_def asciiToLowerCase_def lowerChar_def
  exSignupEnv_def exEmptyDb_def exJohn_def exJohnDoe_def exNina_def exNinaCredential_def
  testCredentials_def less_eq_char_def less_char_def

lemma exSignup:
  "handleSignup asciiToLowerCase exSignupEnv ''Nina Patel'' ''nina@schedulo.com'' ''secret123''
       (testCredentials, exEmptyDb) =
     (AccountCreated,
      testCredentials\<lparr>credEmployees := credEmployees testCredentials @ [exNinaCredential]\<rparr>,
      exEmptyDb\<lparr>users := users exEmptyDb @ [exNina]\<rparr>)"
  by (simp add: signup_defs)

lemma exLoginSameProcess:
  "handleLogin (testCredentials\<lparr>credEmployees := credEmployees testCredentials @ [exNinaCredential]\<rparr>)
     (users exEmptyDb @ [exNina]) ''nina@schedulo.com'' ''secret123'' = NavigateToDashboard exNina"
  by (simp add: handleLogin_def signup_defs)

lemma exLoginAfterReload:
  "handleLogin testCredentials (users exEmptyDb @ [exNina]) ''nina@schedulo.com'' ''secret123'' =
     AuthError ''Invalid email or password. Ensure database is initialized first.''"
  by (simp add: handleLogin_def signup_defs)

text \<open>
  Claim C10, as amended.  Every user document that \<open>handleSignup\<close> adds to the store has no
  password.  A successful signup adds exactly the document with the email, the name and
  the role employee, and appends the email, name and password to the employees of
  \<open>testCredentials\<close>.  The search of the login page for a stored user with matching
  password never yields a user without password.  For an employee \<open>u\<close> without stored
  password, \<open>handleLogin\<close> navigates to the dashboard as \<open>u\<close> exactly when the manager branch
  is not taken, some entry of the employees of the current \<open>testCredentials\<close> has the email
  and the password that were entered, and \<open>u\<close> is the first fetched user with that email.
  The entry need not be the one that the signup pushed: with the list as it is when the
  application is loaded, such a login succeeds only with one of the eight built-in emails
  and the password \<open>password123\<close>.
\<close>

theorem signup_user_logs_in_only_through_testCredentials:
  "(\<forall>v \<in> set (users (snd (snd (handleSignup toLowerCase env nm em pw (creds, d))))).
      v \<in> set (users d) \<or> password v = None) \<and>
   (handleSignup toLowerCase env nm em pw (creds, d) = (AccountCreated, creds', d') \<longrightarrow>
      users d' = users d @
        [\<lparr>user_id = newUserId env, email = em, name = nm, role = Employee, password = None\<rparr>] \<and>
      credEmployees creds' = credEmployees creds @
        [\<lparr>cred_email = em, cred_name = nm, cred_password = pw\<rparr>]) \<and>
   (password u = None \<longrightarrow>
      find (\<lambda>x. email x = loginEmail \<and> password x = Some loginPassword) userList \<noteq> Some u) \<and>
   (password u = None \<longrightarrow> role u = Employee \<longrightarrow>
      (handleLogin loginCreds userList loginEmail loginPassword = NavigateToDashboard u \<longleftrightarrow>
         \<not> (loginEmail = cred_email (credManager loginCreds) \<and>
            loginPassword = cred_password (credManager loginCreds) \<and>
            find (\<lambda>x. role x = Manager) userList \<noteq> None) \<and>
         (\<exists>c \<in> set (credEmployees loginCreds).
            cred_email c = loginEmail \<and> cred_password c = loginPassword) \<and>
         find (\<lambda>x. email x = loginEmail) userList = Some u)) \<and>
   (password u = None \<longrightarrow> role u = Employee \<longrightarrow>
    handleLogin testCredentials userList loginEmail loginPassword = NavigateToDashboard u \<longrightarrow>
      loginPassword = ''password123'' \<and>
      loginEmail \<in> {''john@schedulo.com'', ''sarah@schedulo.com'', ''mike@schedulo.com'',
        ''emma@schedulo.com'', ''alex@schedulo.com'', ''jessica@schedulo.com'',
        ''david@schedulo.com'', ''rachel@schedulo.com''})"
proof (intro conjI impI)
  show "\<forall>v \<in> set (users (snd (snd (handleSignup toLowerCase env nm em pw (creds, d))))).
      v \<in> set (users d) \<or> password v = None"
    by (rule handleSignup_stores_no_password)
next
  assume a: "handleSignup toLowerCase env nm em pw (creds, d) = (AccountCreated, creds', d')"
  from handleSignup_created [OF a]
  show "users d' = users d @
        [\<lparr>user_id = newUserId env, email = em, name = nm, role = Employee, password = None\<rparr>]"
    and "credEmployees creds' = credEmployees creds @
        [\<lparr>cred_email = em, cred_name = nm, cred_password = pw\<rparr>]"
    by simp_all
next
  assume "password u = None"
  then show "find (\<lambda>x. email x = loginEmail \<and> password x = Some loginPassword) userList \<noteq> Some u"
    by (rule find_password_neq)
next
  assume "password u = None" and "role u = Employee"
  then show "handleLogin loginCreds userList loginEmail loginPassword = NavigateToDashboard u \<longleftrightarrow>
         \<not> (loginEmail = cred_email (credManager loginCreds) \<and>
            loginPassword = cred_password (credManager loginCreds) \<and>
            find (\<lambda>x. role x = Manager) userList \<noteq> None) \<and>
         (\<exists>c \<in> set (credEmployees loginCreds).
            cred_email c = loginEmail \<and> cred_password c = loginPassword) \<and>
         find (\<lambda>x. email x = loginEmail) userList = Some u"
    by (rule login_without_password)
next
  assume p: "password u = None" and r: "role u = Employee"
    and l: "handleLogin testCredentials userList loginEmail loginPassword = NavigateToDashboard u"
  from l login_without_password [OF p r, of testCredentials userList loginEmail loginPassword]
  obtain c where c: "c \<in> set (credEmployees testCredentials)"
    and e: "cred_email c = loginEmail" and w: "cred_password c = loginPassword"
    by blast
  from builtin_credentials [OF c] e w
  show "loginPassword = ''password123''"
    and "loginEmail \<in> {''john@schedulo.com'', ''sarah@schedulo.com'', ''mike@schedulo.com'',
        ''emma@schedulo.com'', ''alex@schedulo.com'', ''jessica@schedulo.com'',
        ''david@schedulo.com'', ''rachel@schedulo.com''}"
    by simp_all
qed

theorem signup_user_logs_in_only_through_testCredentials_witness:
  "handleSignup asciiToLowerCase exSignupEnv ''Nina Patel'' ''nina@schedulo.com'' ''secret123''
       (testCredentials, exEmptyDb) =
     (AccountCreated,
      testCredentials\<lparr>credEmployees := credEmployees testCredentials @ [exNinaCredential]\<rparr>,
      exEmptyDb\<lparr>users := users exEmptyDb @ [exNina]\<rparr>) \<and>
   password exNina = None \<and> role exNina = Employee \<and>
   handleLogin (testCredentials\<lparr>credEmployees := credEmployees testCredentials @ [exNinaCredential]\<rparr>)
     (users exEmptyDb @ [exNina]) ''nina@schedulo.com'' ''secret123'' = NavigateToDashboard exNina \<and>
   (\<exists>c \<in> set (credEmployees (testCredentials\<lparr>credEmployees := credEmployees testCredentials @ [exNinaCredential]\<rparr>)).
      cred_email c = ''nina@schedulo.com'' \<and> cred_password c = ''secret123'') \<and>
   find (\<lambda>x. email x = ''nina@schedulo.com'') (users exEmptyDb @ [exNina]) = Some exNina \<and>
   find (\<lambda>x. email x = ''nina@schedulo.com'' \<and> password x = Some ''secret123'')
     (users exEmptyDb @ [exNina]) \<noteq> Some exNina \<and>
   handleLogin testCredentials (users exEmptyDb @ [exNina]) ''nina@schedulo.com'' ''secret123'' =
     AuthError ''Invalid email or password. Ensure database is initialized first.'' \<and>
   handleLogin testCredentials (users exFreshDb @ [exJohnSignedUp]) ''john@schedulo.com'' ''password123'' =
     NavigateToDashboard exJohnSignedUp"
proof -
  let ?creds = "testCredentials\<lparr>credEmployees := credEmployees testCredentials @ [exNinaCredential]\<rparr>"
  let ?users = "users exEmptyDb @ [exNina]"
  note th = signup_user_logs_in_only_through_testCredentials [where loginCreds = ?creds
      and userList = ?users and loginEmail = "''nina@schedulo.com''" and loginPassword = "''secret123''"
      and u = exNina]
  note tj = signup_user_logs_in_only_through_testCredentials [where loginCreds = testCredentials
      and userList = "users exFreshDb @ [exJohnSignedUp]" and loginEmail = "''john@schedulo.com''"
      and loginPassword = "''password123''" and u = exJohnSignedUp]
  have p: "password exNina = None" and r: "role exNina = Employee"
    by (simp_all add: exNina_def)
  from th exLoginSameProcess p r
  have c: "(\<exists>c \<in> set (credEmployees ?creds). cred_email c = ''nina@schedulo.com'' \<and> cred_password c = ''secret123'')"
    and e: "find (\<lambda>x. email x = ''nina@schedulo.com'') ?users = Some exNina"
    by blast+
  from th p
  have f: "find (\<lambda>x. email x = ''nina@schedulo.com'' \<and> password x = Some ''secret123'') ?users \<noteq> Some exNina"
    by blast
  have pj: "password exJohnSignedUp = None" and rj: "role exJohnSignedUp = Employee"
    by (simp_all add: exJohnSignedUp_def)
  have mj: "\<not> (''john@schedulo.com'' = cred_email (credManager testCredentials) \<and>
        ''password123'' = cred_password (credManager testCredentials) \<and>
        find (\<lambda>x. role x = Manager) (users exFreshDb @ [exJohnSignedUp]) \<noteq> None)"
    by (simp add: testCredentials_def)
  have cj: "\<exists>c \<in> set (credEmployees testCredentials).
        cred_email c = ''john@schedulo.com'' \<and> cred_password c = ''password123''"
    by (simp add: testCredentials_def)
  have ej: "find (\<lambda>x. email x = ''john@schedulo.com'') (users exFreshDb @ [exJohnSignedUp]) = Some exJohnSignedUp"
    by (simp add: exFreshDb_def exJohnSignedUp_def)
  from tj pj rj mj cj ej
  have j: "handleLogin testCredentials (users exFreshDb @ [exJohnSignedUp]) ''john@schedulo.com'' ''password123'' =
     NavigateToDashboard exJohnSignedUp"
    by blast
  from exSignup p r exLoginSameProcess c e f exLoginAfterReload j show ?thesis by blast
qed

text \<open>
  The claim as stated fails.  On a store without users, John Smith signs up with the email
  \<open>john@schedulo.com\<close> and the password \<open>mysecret1\<close>.  After the application is loaded
  again, \<open>testCredentials\<close> has its initial value, which does not hold the entry of the
  signup; the login with the built-in password \<open>password123\<close> still navigates to the
  dashboard as the user that the signup created, and the login with the password chosen at
  signup fails.
\<close>

theorem signup_user_logs_in_after_reload_counterexample:
  "handleSignup asciiToLowerCase exSignupEnv ''John Smith'' ''john@schedulo.com'' ''mysecret1''
       (testCredentials, exFreshDb) =
     (AccountCreated,
      testCredentials\<lparr>credEmployees := credEmployees testCredentials @ [exJohnCredential]\<rparr>,
      exFreshDb\<lparr>users := [exJohnSignedUp]\<rparr>) \<and>
   password exJohnSignedUp = None \<and>
   exJohnCredential \<notin> set (credEmployees testCredentials) \<and>
   handleLogin testCredentials [exJohnSignedUp] ''john@schedulo.com'' ''password123'' =
     NavigateToDashboard exJohnSignedUp \<and>
   handleLogin testCredentials [exJohnSignedUp] ''john@schedulo.com'' ''mysecret1'' =
     AuthError ''Invalid email or password. Ensure database is initialized first.''"
  by (simp add: handleLogin_def signup_defs exFreshDb_def exJohnSignedUp_def exJohnCredential_def)

end
